theory Spec2Isabelle
  imports Complex_Main "HOL-Library.AList"
begin

section \<open>JavaScript values used by the Sankey graph builder\<close>

text \<open>
  The graph builder of \<^verbatim>\<open>SankeyDiagram\<close> (the main effect, lines 171 to 301 of the
  component) is embedded below. It uses three things of the JavaScript runtime: numbers
  (the results of \<^verbatim>\<open>parseFloat\<close>, compared with zero), strings (template strings,
  truthiness, \<^verbatim>\<open>toLowerCase\<close>) and \<^verbatim>\<open>Map\<close> (insertion ordered, unique keys).

  A JavaScript number is \<^verbatim>\<open>NaN\<close>, an infinity or a finite double. A finite double is
  modelled by the rational it denotes; \<^verbatim>\<open>-0\<close> and \<^verbatim>\<open>+0\<close> are both \<open>Fin 0\<close>, which
  is how every comparison of the builder treats them.
\<close>

datatype jsnum = NaN | NegInfinity | Fin rat | PosInfinity

text \<open>The three comparisons of the builder. Every comparison with \<^verbatim>\<open>NaN\<close> is false.\<close>

fun le_zero :: "jsnum \<Rightarrow> bool" where
  "le_zero NaN = False"
| "le_zero NegInfinity = True"
| "le_zero (Fin r) = (r \<le> 0)"
| "le_zero PosInfinity = False"

fun gt_zero :: "jsnum \<Rightarrow> bool" where
  "gt_zero NaN = False"
| "gt_zero NegInfinity = False"
| "gt_zero (Fin r) = (0 < r)"
| "gt_zero PosInfinity = True"

fun strict_eq_zero :: "jsnum \<Rightarrow> bool" where
  "strict_eq_zero NaN = False"
| "strict_eq_zero NegInfinity = False"
| "strict_eq_zero (Fin r) = (r = 0)"
| "strict_eq_zero PosInfinity = False"

subsection \<open>Strings\<close>

text \<open>
  A string is a list of code units below 256. \<^verbatim>\<open>toLowerCase\<close> maps \<open>A\<close> to \<open>Z\<close> and
  the capital letters of Latin-1 (\<open>0xC0\<close> to \<open>0xDE\<close> without the multiplication sign
  \<open>0xD7\<close>) to the code unit 32 above, and leaves every other code unit alone.
\<close>

definition toLowerChar :: "char \<Rightarrow> char" where
  "toLowerChar c =
     (let n = (of_char c :: nat)
      in if (65 \<le> n \<and> n \<le> 90) \<or> (192 \<le> n \<and> n \<le> 222 \<and> n \<noteq> 215)
         then char_of (n + 32) else c)"

definition toLowerCase :: "string \<Rightarrow> string" where
  "toLowerCase s = map toLowerChar s"

subsection \<open>parseFloat\<close>

text \<open>
  \<^verbatim>\<open>parseFloat\<close> is a builtin, not code of the repository, so the builder below takes
  the parser as its first argument \<open>pf\<close> and every general theorem holds for any parser.
  For the concrete inputs of the examples, \<open>parseFloat\<close> follows ECMAScript: leading
  white space is skipped, then the longest prefix that is a \<^verbatim>\<open>StrDecimalLiteral\<close> is
  read (a sign, then \<^verbatim>\<open>Infinity\<close> or digits with an optional fraction and exponent) and
  whatever follows is ignored; with no such prefix the result is \<^verbatim>\<open>NaN\<close>. The result is
  the exact decimal value, sent to zero or to an infinity where a double underflows or
  overflows; the rounding of the mantissa to 53 bits is not modelled.
\<close>

definition isWhiteSpace :: "char \<Rightarrow> bool" where
  "isWhiteSpace c = ((of_char c :: nat) \<in> {9, 10, 11, 12, 13, 32, 160})"

definition isDigit :: "char \<Rightarrow> bool" where
  "isDigit c = (48 \<le> (of_char c :: nat) \<and> (of_char c :: nat) \<le> 57)"

definition digitsValue :: "string \<Rightarrow> nat" where
  "digitsValue ds = foldl (\<lambda>a c. 10 * a + ((of_char c :: nat) - 48)) 0 ds"

definition splitSign :: "string \<Rightarrow> bool \<times> string" where
  "splitSign s =
     (case s of
        [] \<Rightarrow> (False, s)
      | c # r \<Rightarrow> if c = CHR ''-'' then (True, r)
                 else if c = CHR ''+'' then (False, r) else (False, s))"

definition exponentPart :: "string \<Rightarrow> int" where
  "exponentPart s =
     (case s of
        [] \<Rightarrow> 0
      | c # r \<Rightarrow>
          if c = CHR ''e'' \<or> c = CHR ''E''
          then (let (neg, r') = splitSign r; ds = takeWhile isDigit r'
                in if ds = [] then 0
                   else if neg then - int (digitsValue ds) else int (digitsValue ds))
          else 0)"

definition pow10 :: "int \<Rightarrow> rat" where
  "pow10 e = (if 0 \<le> e then 10 ^ nat e else 1 / 10 ^ nat (- e))"

definition toDouble :: "rat \<Rightarrow> jsnum" where
  "toDouble r =
     (if \<bar>r\<bar> * 2 ^ 1075 \<le> 1 then Fin 0
      else if 2 ^ 1024 - 2 ^ 970 \<le> \<bar>r\<bar> then (if r < 0 then NegInfinity else PosInfinity)
      else Fin r)"

definition parseFloat :: "string \<Rightarrow> jsnum" where
  "parseFloat s =
     (let (neg, u) = splitSign (dropWhile isWhiteSpace s)
      in if take 8 u = ''Infinity'' then (if neg then NegInfinity else PosInfinity)
         else
           (let ip = takeWhile isDigit u;
                r1 = dropWhile isDigit u;
                (fp, r2) = (case r1 of
                              [] \<Rightarrow> ([], r1)
                            | c # r \<Rightarrow> if c = CHR ''.''
                                       then (takeWhile isDigit r, dropWhile isDigit r)
                                       else ([], r1))
            in if ip = [] \<and> fp = [] then NaN
               else
                 (let m = of_nat (digitsValue (ip @ fp)) * pow10 (exponentPart r2 - int (length fp))
                  in toDouble (if neg then - m else m))))"

subsection \<open>Map\<close>

text \<open>
  A \<^verbatim>\<open>Map\<close> keeps its entries in insertion order, one per key: \<^verbatim>\<open>set\<close> on a key that
  is present replaces the entry where it stands, \<^verbatim>\<open>set\<close> on a new key appends. This is an
  association list with distinct keys.
\<close>

type_synonym ('k, 'v) jsmap = "('k \<times> 'v) list"

definition map_has :: "'k \<Rightarrow> ('k, 'v) jsmap \<Rightarrow> bool" where
  "map_has k m = (k \<in> set (map fst m))"

definition map_get :: "'k \<Rightarrow> ('k, 'v) jsmap \<Rightarrow> 'v option" where
  "map_get k m = map_of m k"

definition map_set :: "'k \<Rightarrow> 'v \<Rightarrow> ('k, 'v) jsmap \<Rightarrow> ('k, 'v) jsmap" where
  "map_set k v m = AList.update k v m"

definition map_delete :: "'k \<Rightarrow> ('k, 'v) jsmap \<Rightarrow> ('k, 'v) jsmap" where
  "map_delete k m = AList.delete k m"

definition map_values :: "('k, 'v) jsmap \<Rightarrow> 'v list" where
  "map_values m = map snd m"

section \<open>The data of the component\<close>

text \<open>
  \<^verbatim>\<open>GrantItem\<close>, as the interface declares it. The field \<^verbatim>\<open>id\<close> is \<open>id'\<close> here
  (\<open>id\<close> is the identity function of HOL).
\<close>

record GrantItem =
  title :: string
  status :: int
  recipient :: string
  monthlyIncomingFlowRate :: string
  monthlyOutgoingFlowRate :: string
  flowId :: "string option"
  isFlow :: bool
  id' :: string

text \<open>
  \<^verbatim>\<open>NeynarUserProfile\<close>: the builder reads \<^verbatim>\<open>display_name\<close> and \<^verbatim>\<open>username\<close> only, so
  the other fields of the interface are left out.
\<close>

record NeynarUserProfile =
  display_name :: string
  username :: string

text \<open>
  \<^verbatim>\<open>LocalSankeyNode\<close>. An optional field that the object literal does not set, or sets to
  \<^verbatim>\<open>undefined\<close>, is \<open>None\<close>. The node's \<^verbatim>\<open>title\<close>, \<^verbatim>\<open>isFlow\<close> and \<^verbatim>\<open>username\<close> carry a
  prime, the names being fields of the records above. The geometry fields (\<^verbatim>\<open>x0\<close>,
  \<^verbatim>\<open>x1\<close>, \<^verbatim>\<open>y0\<close>, \<^verbatim>\<open>y1\<close>, \<^verbatim>\<open>value\<close>, and a link's \<^verbatim>\<open>width\<close>, \<^verbatim>\<open>y0\<close>, \<^verbatim>\<open>y1\<close>) are
  written by the layout library after the graph is built and are left out.
\<close>

record LocalSankeyNode =
  nodeId :: string
  name :: string
  title' :: "string option"
  originalData :: "GrantItem option"
  isRecipient :: "bool option"
  isFlow' :: "bool option"
  username' :: "string option"
  profileUrl :: "string option"
  flowUrl :: "string option"
  itemUrl :: "string option"

text \<open>
  \<^verbatim>\<open>LocalSankeyLink\<close>. The builder only ever stores node ids in \<^verbatim>\<open>source\<close> and
  \<^verbatim>\<open>target\<close> (the layout library replaces them by node objects later), so both are
  strings and the \<^verbatim>\<open>typeof link.source === 'string'\<close> tests take their first branch.
  The field \<^verbatim>\<open>value\<close> is \<open>linkValue\<close> here.
\<close>

record LocalSankeyLink =
  source :: string
  target :: string
  linkValue :: jsnum

record Graph =
  nodes :: "LocalSankeyNode list"
  links :: "LocalSankeyLink list"

section \<open>The graph builder\<close>

definition FUNDING_SOURCE_ID :: string where
  "FUNDING_SOURCE_ID = ''___funding_source___''"

definition RECIPIENT_PREFIX :: string where
  "RECIPIENT_PREFIX = ''recipient_''"

text \<open>Lines 176 to 179: the virtual funding source node.\<close>

definition fundingSourceNode :: LocalSankeyNode where
  "fundingSourceNode =
     \<lparr> nodeId = FUNDING_SOURCE_ID, name = ''Funding Source'', title' = None,
       originalData = None, isRecipient = None, isFlow' = None, username' = None,
       profileUrl = None, flowUrl = None, itemUrl = None \<rparr>"

text \<open>
  Lines 182 to 192, the first pass: every item is stored under its id. An empty title is
  falsy, so \<^verbatim>\<open>item.title || item.id\<close> is the id then.
\<close>

definition grantNode :: "GrantItem \<Rightarrow> LocalSankeyNode" where
  "grantNode item =
     \<lparr> nodeId = id' item,
       name = (if title item \<noteq> [] then title item else id' item),
       title' = Some (title item),
       originalData = Some item,
       isRecipient = None,
       isFlow' = Some (isFlow item),
       username' = None,
       profileUrl = None,
       flowUrl = (if isFlow item then Some (''https://flows.wtf/flow/'' @ id' item) else None),
       itemUrl = Some (''https://flows.wtf/item/'' @ id' item) \<rparr>"

definition addGrantNode :: "GrantItem \<Rightarrow> (string, LocalSankeyNode) jsmap \<Rightarrow> (string, LocalSankeyNode) jsmap" where
  "addGrantNode item nodesMap = map_set (id' item) (grantNode item) nodesMap"

text \<open>
  Lines 196 to 225: recipient nodes of the terminal grants. The test of line 197 (and of
  line 250) is \<open>isTerminal\<close>: the outgoing rate parses to zero and the recipient is a
  non-empty string. The profile is looked up under the lowercased address; the node is
  stored under the address as it is written, and only when the key is new.

  The profile mapping is a plain object used as a dictionary. The partial map holds its
  own properties (the profiles that the fetch effect stores under lowercased addresses),
  and its prototype is \<^verbatim>\<open>Object.prototype\<close>: a key with no own property is read from
  there. The key is a lowercased string, and the only property names of
  \<^verbatim>\<open>Object.prototype\<close> without a capital letter are \<^verbatim>\<open>constructor\<close> and \<^verbatim>\<open>__proto__\<close>.
  Both hold an object, which is truthy and has neither \<^verbatim>\<open>display_name\<close> nor
  \<^verbatim>\<open>username\<close>; the template strings print the missing fields as \<^verbatim>\<open>undefined\<close>.
  (Storing a profile under the key \<^verbatim>\<open>__proto__\<close> would replace the prototype; the lookup
  of that key then gives the profile, as here, and the other keys are read as if the
  prototype were unchanged.)
\<close>

datatype profileLookup = NoProfile | OwnProfile NeynarUserProfile | Inherited

definition lookupProfile :: "(string \<rightharpoonup> NeynarUserProfile) \<Rightarrow> string \<Rightarrow> profileLookup" where
  "lookupProfile recipientProfiles k =
     (case recipientProfiles k of
        Some profile \<Rightarrow> OwnProfile profile
      | None \<Rightarrow> if k = ''constructor'' \<or> k = ''__proto__'' then Inherited else NoProfile)"

definition isTerminal :: "(string \<Rightarrow> jsnum) \<Rightarrow> GrantItem \<Rightarrow> bool" where
  "isTerminal pf item =
     (strict_eq_zero (pf (monthlyOutgoingFlowRate item)) \<and> recipient item \<noteq> [])"

definition recipientNode :: "(string \<rightharpoonup> NeynarUserProfile) \<Rightarrow> GrantItem \<Rightarrow> LocalSankeyNode" where
  "recipientNode recipientProfiles item =
     (let recipientId = RECIPIENT_PREFIX @ recipient item;
          recipientLowerCase = toLowerCase (recipient item)
      in case lookupProfile recipientProfiles recipientLowerCase of
           NoProfile \<Rightarrow>
             \<lparr> nodeId = recipientId, name = recipient item,
               title' = Some (''Recipient: '' @ recipient item),
               originalData = None, isRecipient = Some True, isFlow' = None,
               username' = None, profileUrl = None, flowUrl = None, itemUrl = None \<rparr>
         | OwnProfile profile \<Rightarrow>
             \<lparr> nodeId = recipientId,
               name = display_name profile @ '' ('' @ username profile @ '')'',
               title' = Some (''Recipient: '' @ display_name profile),
               originalData = None, isRecipient = Some True, isFlow' = None,
               username' = Some (username profile),
               profileUrl = Some (''https://warpcast.com/'' @ username profile),
               flowUrl = None, itemUrl = None \<rparr>
         | Inherited \<Rightarrow>
             \<lparr> nodeId = recipientId,
               name = ''undefined (undefined)'',
               title' = Some ''Recipient: undefined'',
               originalData = None, isRecipient = Some True, isFlow' = None,
               username' = None,
               profileUrl = Some ''https://warpcast.com/undefined'',
               flowUrl = None, itemUrl = None \<rparr>)"

definition addRecipientNode :: "(string \<Rightarrow> jsnum) \<Rightarrow> (string \<rightharpoonup> NeynarUserProfile) \<Rightarrow> GrantItem \<Rightarrow> (string, LocalSankeyNode) jsmap \<Rightarrow> (string, LocalSankeyNode) jsmap" where
  "addRecipientNode pf recipientProfiles item nodesMap =
     (if isTerminal pf item
      then (let recipientId = RECIPIENT_PREFIX @ recipient item
            in if \<not> map_has recipientId nodesMap
               then map_set recipientId (recipientNode recipientProfiles item) nodesMap
               else nodesMap)
      else nodesMap)"

text \<open>The node map when the links are built: line 176, then the two passes over the items.\<close>

definition buildNodesMap :: "(string \<Rightarrow> jsnum) \<Rightarrow> (string \<rightharpoonup> NeynarUserProfile) \<Rightarrow> GrantItem list \<Rightarrow> (string, LocalSankeyNode) jsmap" where
  "buildNodesMap pf recipientProfiles items =
     fold (addRecipientNode pf recipientProfiles) items
       (fold addGrantNode items (map_set FUNDING_SOURCE_ID fundingSourceNode []))"

text \<open>
  Lines 228 to 246, the second pass: the inbound link of an item. The callback returns
  early when \<^verbatim>\<open>value <= 0\<close>. The source is the item's \<^verbatim>\<open>flowId\<close> when that is truthy
  (neither \<^verbatim>\<open>null\<close> nor the empty string) and a key of the node map, the funding source
  otherwise.
\<close>

definition actualSourceId :: "(string, LocalSankeyNode) jsmap \<Rightarrow> GrantItem \<Rightarrow> string" where
  "actualSourceId nodesMap item =
     (case flowId item of
        None \<Rightarrow> FUNDING_SOURCE_ID
      | Some sourceNodeId \<Rightarrow>
          if sourceNodeId \<noteq> [] \<and> map_has sourceNodeId nodesMap
          then sourceNodeId else FUNDING_SOURCE_ID)"

definition addInboundLink :: "(string \<Rightarrow> jsnum) \<Rightarrow> (string, LocalSankeyNode) jsmap \<Rightarrow> GrantItem \<Rightarrow> LocalSankeyLink list \<Rightarrow> LocalSankeyLink list" where
  "addInboundLink pf nodesMap item ls =
     (let v = pf (monthlyIncomingFlowRate item)
      in if le_zero v then ls
         else if map_has (id' item) nodesMap
              then ls @ [\<lparr> source = actualSourceId nodesMap item, target = id' item, linkValue = v \<rparr>]
              else ls)"

text \<open>Lines 249 to 262: the link of a terminal grant to its recipient node.\<close>

definition addRecipientLink :: "(string \<Rightarrow> jsnum) \<Rightarrow> (string, LocalSankeyNode) jsmap \<Rightarrow> GrantItem \<Rightarrow> LocalSankeyLink list \<Rightarrow> LocalSankeyLink list" where
  "addRecipientLink pf nodesMap item ls =
     (if isTerminal pf item
      then (let recipientId = RECIPIENT_PREFIX @ recipient item;
                grantValue = pf (monthlyIncomingFlowRate item)
            in if gt_zero grantValue \<and> map_has recipientId nodesMap
               then ls @ [\<lparr> source = id' item, target = recipientId, linkValue = grantValue \<rparr>]
               else ls)
      else ls)"

text \<open>The link list before the filter: the two link passes, in this order.\<close>

definition buildLinks :: "(string \<Rightarrow> jsnum) \<Rightarrow> (string, LocalSankeyNode) jsmap \<Rightarrow> GrantItem list \<Rightarrow> LocalSankeyLink list" where
  "buildLinks pf nodesMap items =
     fold (addRecipientLink pf nodesMap) items (fold (addInboundLink pf nodesMap) items [])"

text \<open>Lines 265 to 267: the funding source is deleted when no link starts at it.\<close>

definition removeFundingSource :: "(string, LocalSankeyNode) jsmap \<Rightarrow> LocalSankeyLink list \<Rightarrow> (string, LocalSankeyNode) jsmap" where
  "removeFundingSource nodesMap ls =
     (if \<not> list_ex (\<lambda>link. source link = FUNDING_SOURCE_ID) ls
      then map_delete FUNDING_SOURCE_ID nodesMap else nodesMap)"

text \<open>
  Lines 270 to 295, the connectivity filter: the ids that some link names, the entries of
  the node map under such an id (copied into a new map, in order), and the links whose
  two ends are keys of that new map.
\<close>

definition collectNodesWithLinks :: "LocalSankeyLink list \<Rightarrow> string set" where
  "collectNodesWithLinks ls =
     fold (\<lambda>link nodesWithLinks. insert (target link) (insert (source link) nodesWithLinks)) ls {}"

definition filterNodesMap :: "string set \<Rightarrow> (string, LocalSankeyNode) jsmap \<Rightarrow> (string, LocalSankeyNode) jsmap" where
  "filterNodesMap nodesWithLinks nodesMap =
     fold (\<lambda>(k, node) filteredNodesMap.
             if k \<in> nodesWithLinks then map_set k node filteredNodesMap else filteredNodesMap)
       nodesMap []"

definition filterLinks :: "(string, LocalSankeyNode) jsmap \<Rightarrow> LocalSankeyLink list \<Rightarrow> LocalSankeyLink list" where
  "filterLinks filteredNodesMap ls =
     filter (\<lambda>link. map_has (source link) filteredNodesMap \<and> map_has (target link) filteredNodesMap) ls"

definition connectivityFilter :: "(string, LocalSankeyNode) jsmap \<times> LocalSankeyLink list \<Rightarrow> (string, LocalSankeyNode) jsmap \<times> LocalSankeyLink list" where
  "connectivityFilter g =
     (let filteredNodesMap = filterNodesMap (collectNodesWithLinks (snd g)) (fst g)
      in (filteredNodesMap, filterLinks filteredNodesMap (snd g)))"

text \<open>
  The node map and the link list that the filter reads (the state at line 269), and the
  graph of lines 298 to 301.
\<close>

definition preFilter :: "(string \<Rightarrow> jsnum) \<Rightarrow> GrantItem list \<Rightarrow> (string \<rightharpoonup> NeynarUserProfile) \<Rightarrow> (string, LocalSankeyNode) jsmap \<times> LocalSankeyLink list" where
  "preFilter pf items recipientProfiles =
     (let nodesMap = buildNodesMap pf recipientProfiles items;
          ls = buildLinks pf nodesMap items
      in (removeFundingSource nodesMap ls, ls))"

definition buildGraph :: "(string \<Rightarrow> jsnum) \<Rightarrow> GrantItem list \<Rightarrow> (string \<rightharpoonup> NeynarUserProfile) \<Rightarrow> Graph" where
  "buildGraph pf items recipientProfiles =
     (let (filteredNodesMap, filteredLinks) = connectivityFilter (preFilter pf items recipientProfiles)
      in \<lparr> nodes = map_values filteredNodesMap, links = filteredLinks \<rparr>)"

section \<open>The invariant of the node map and the inputs of the examples\<close>

text \<open>
  The node map of the builder is a \<^verbatim>\<open>Map\<close>: its keys are distinct. Every node is stored
  under its own \<^verbatim>\<open>nodeId\<close>.
\<close>

definition keyedById :: "(string, LocalSankeyNode) jsmap \<Rightarrow> bool" where
  "keyedById m = (distinct (map fst m) \<and> map (\<lambda>(k, n). nodeId n) m = map fst m)"

text \<open>The links that one item adds in the two link passes, each run from the empty list.\<close>

definition contributedLinks :: "(string \<Rightarrow> jsnum) \<Rightarrow> (string, LocalSankeyNode) jsmap \<Rightarrow> GrantItem \<Rightarrow> LocalSankeyLink list" where
  "contributedLinks pf nodesMap item =
     addInboundLink pf nodesMap item [] @ addRecipientLink pf nodesMap item []"

text \<open>The recipient nodes of a graph: the nodes whose \<^verbatim>\<open>isRecipient\<close> is true.\<close>

definition recipientNodes :: "Graph \<Rightarrow> LocalSankeyNode list" where
  "recipientNodes g = filter (\<lambda>n. isRecipient n = Some True) (nodes g)"

text \<open>The grant of the examples of the specification, and the empty profile mapping.\<close>

definition exampleGrant :: GrantItem where
  "exampleGrant =
     \<lparr> title = ''Grant 1'', status = 1, recipient = ''0xabc'',
       monthlyIncomingFlowRate = ''100'', monthlyOutgoingFlowRate = ''0'',
       flowId = None, isFlow = False, id' = ''g1'' \<rparr>"

definition noProfiles :: "string \<rightharpoonup> NeynarUserProfile" where
  "noProfiles = Map.empty"

text \<open>Variants of the grant: rates that do not parse, and a second grant.\<close>

definition grantZeroIncoming :: GrantItem where
  "grantZeroIncoming = exampleGrant \<lparr> monthlyIncomingFlowRate := ''0'' \<rparr>"

definition grantUnparsableIncoming :: GrantItem where
  "grantUnparsableIncoming = exampleGrant \<lparr> monthlyIncomingFlowRate := ''abc'' \<rparr>"

definition grantUnparsableOutgoing :: GrantItem where
  "grantUnparsableOutgoing = exampleGrant \<lparr> monthlyOutgoingFlowRate := ''abc'' \<rparr>"

definition secondGrant :: GrantItem where
  "secondGrant = exampleGrant \<lparr> title := ''Grant 2'', id' := ''g2'' \<rparr>"

text \<open>The same address in capitals.\<close>

definition grantUpperCase :: GrantItem where
  "grantUpperCase = secondGrant \<lparr> recipient := ''0xABC'' \<rparr>"

text \<open>Grants whose id is the reserved id, the empty string, or the id of a recipient node.\<close>

definition grantReservedId :: GrantItem where
  "grantReservedId = exampleGrant \<lparr> id' := ''___funding_source___'' \<rparr>"

definition grantEmptyId :: GrantItem where
  "grantEmptyId =
     \<lparr> title = ''Root'', status = 1, recipient = [],
       monthlyIncomingFlowRate = ''0'', monthlyOutgoingFlowRate = ''100'',
       flowId = None, isFlow = True, id' = [] \<rparr>"

definition grantRecipientId :: GrantItem where
  "grantRecipientId = grantEmptyId \<lparr> title := ''X'', id' := ''recipient_0xabc'' \<rparr>"

text \<open>A grant whose \<^verbatim>\<open>flowId\<close> is the empty string.\<close>

definition grantEmptyFlowId :: GrantItem where
  "grantEmptyFlowId = secondGrant \<lparr> flowId := Some [] \<rparr>"

text \<open>
  A flow \<open>a\<close> with no income, and a grant funded by \<open>a\<close> whose id is the reserved id.
\<close>

definition flowA :: GrantItem where
  "flowA = grantEmptyId \<lparr> title := ''A'', id' := ''a'' \<rparr>"

definition grantReservedIdFromA :: GrantItem where
  "grantReservedIdFromA = grantReservedId \<lparr> flowId := Some ''a'', recipient := [] \<rparr>"

text \<open>The example grant once more, under the same id with another title; one profile.\<close>

definition repeatedGrant :: GrantItem where
  "repeatedGrant = exampleGrant \<lparr> title := ''Grant 1 again'' \<rparr>"

definition aliceProfiles :: "string \<rightharpoonup> NeynarUserProfile" where
  "aliceProfiles = [''0xabc'' \<mapsto> \<lparr> display_name = ''Alice'', username = ''alice'' \<rparr>]"

section \<open>Facts about the builder\<close>

lemma gt_zero_not_le_zero: "gt_zero v \<Longrightarrow> \<not> le_zero v"
  by (cases v) auto

subsection \<open>Map facts\<close>

lemma map_has_map_set: "map_has k (map_set k' v m) \<longleftrightarrow> k = k' \<or> map_has k m"
  by (auto simp: map_has_def map_set_def AList.dom_update)

lemma map_has_map_delete: "map_has k (map_delete k' m) \<longleftrightarrow> k \<noteq> k' \<and> map_has k m"
  by (auto simp: map_has_def map_delete_def AList.delete_keys simp flip: set_map)

lemma map_get_map_set: "map_get k (map_set k' v m) = (if k = k' then Some v else map_get k m)"
  by (simp add: map_get_def map_set_def AList.update_conv')

lemma distinct_map_set: "distinct (map fst m) \<Longrightarrow> distinct (map fst (map_set k v m))"
  by (simp add: map_set_def AList.distinct_update)

lemma distinct_map_delete: "distinct (map fst m) \<Longrightarrow> distinct (map fst (map_delete k m))"
  by (simp add: map_delete_def AList.distinct_delete)

lemma map_has_Nil: "\<not> map_has k []"
  by (simp add: map_has_def)

lemma map_set_new: "\<not> map_has k m \<Longrightarrow> map_set k v m = m @ [(k, v)]"
  by (induction m) (auto simp: map_has_def map_set_def)

lemma set_map_set_subset: "set (map_set k v m) \<subseteq> insert (k, v) (set m)"
  by (induction m) (auto simp: map_set_def)

lemma set_map_delete_subset: "set (map_delete k m) \<subseteq> set m"
  by (auto simp: map_delete_def AList.delete_eq)

lemma map_get_Some_iff: "distinct (map fst m) \<Longrightarrow> map_get k m = Some n \<longleftrightarrow> (k, n) \<in> set m"
  by (simp add: map_get_def)

subsection \<open>The node passes\<close>

lemma has_fold_addGrantNode:
  "map_has k (fold addGrantNode items m) \<longleftrightarrow> map_has k m \<or> k \<in> id' ` set items"
  by (induction items arbitrary: m) (auto simp: addGrantNode_def map_has_map_set)

lemma get_fold_addGrantNode_other:
  "k \<notin> id' ` set items \<Longrightarrow> map_get k (fold addGrantNode items m) = map_get k m"
  by (induction items arbitrary: m) (auto simp: addGrantNode_def map_get_map_set)

lemma get_fold_addGrantNode_last:
  "k \<in> id' ` set items \<Longrightarrow>
   map_get k (fold addGrantNode items m) = Some (grantNode (last (filter (\<lambda>h. id' h = k) items)))"
proof (induction items arbitrary: m rule: rev_induct)
  case Nil
  then show ?case by simp
next
  case (snoc x xs)
  show ?case
  proof (cases "id' x = k")
    case True
    then show ?thesis by (simp add: addGrantNode_def map_get_map_set)
  next
    case False
    with snoc.prems have "k \<in> id' ` set xs" by auto
    with snoc.IH False show ?thesis by (simp add: addGrantNode_def map_get_map_set)
  qed
qed

lemma addRecipientNode_has:
  "map_has k (addRecipientNode pf ps g m) \<longleftrightarrow>
   map_has k m \<or> (isTerminal pf g \<and> k = RECIPIENT_PREFIX @ recipient g)"
  by (auto simp: addRecipientNode_def Let_def map_has_map_set)

lemma addRecipientNode_get_keep:
  "map_has k m \<Longrightarrow> map_get k (addRecipientNode pf ps g m) = map_get k m"
  by (auto simp: addRecipientNode_def Let_def map_get_map_set)

lemma has_fold_addRecipientNode:
  "map_has k (fold (addRecipientNode pf ps) items m) \<longleftrightarrow>
   map_has k m \<or> (\<exists>g\<in>set items. isTerminal pf g \<and> k = RECIPIENT_PREFIX @ recipient g)"
  by (induction items arbitrary: m) (auto simp: addRecipientNode_has)

lemma get_fold_addRecipientNode_keep:
  "map_has k m \<Longrightarrow> map_get k (fold (addRecipientNode pf ps) items m) = map_get k m"
  by (induction items arbitrary: m) (auto simp: addRecipientNode_has addRecipientNode_get_keep)

lemma get_fold_addRecipientNode_first:
  "\<not> map_has (RECIPIENT_PREFIX @ a) m \<Longrightarrow>
   filter (\<lambda>h. isTerminal pf h \<and> recipient h = a) items \<noteq> [] \<Longrightarrow>
   map_get (RECIPIENT_PREFIX @ a) (fold (addRecipientNode pf ps) items m) =
     Some (recipientNode ps (hd (filter (\<lambda>h. isTerminal pf h \<and> recipient h = a) items)))"
proof (induction items arbitrary: m)
  case Nil
  then show ?case by simp
next
  case (Cons x xs)
  show ?case
  proof (cases "isTerminal pf x \<and> recipient x = a")
    case True
    have "map_has (RECIPIENT_PREFIX @ a) (addRecipientNode pf ps x m)"
      using True by (simp add: addRecipientNode_has)
    then have "map_get (RECIPIENT_PREFIX @ a) (fold (addRecipientNode pf ps) xs (addRecipientNode pf ps x m)) =
      map_get (RECIPIENT_PREFIX @ a) (addRecipientNode pf ps x m)"
      by (rule get_fold_addRecipientNode_keep)
    also have "\<dots> = Some (recipientNode ps x)"
      using True Cons.prems(1) by (simp add: addRecipientNode_def Let_def map_get_map_set)
    finally show ?thesis using True by simp
  next
    case False
    have "\<not> map_has (RECIPIENT_PREFIX @ a) (addRecipientNode pf ps x m)"
      using False Cons.prems(1) by (auto simp: addRecipientNode_has)
    moreover have "filter (\<lambda>h. isTerminal pf h \<and> recipient h = a) xs \<noteq> []"
      using False Cons.prems(2) by auto
    ultimately show ?thesis using Cons.IH False by auto
  qed
qed

subsection \<open>Invariants of the node map\<close>

lemma keyedById_member: "keyedById m \<Longrightarrow> (k, n) \<in> set m \<Longrightarrow> nodeId n = k"
proof -
  assume a: "keyedById m" and b: "(k, n) \<in> set m"
  from a have "map (\<lambda>(k, n). nodeId n) m = map fst m" by (simp add: keyedById_def)
  then have "\<forall>p\<in>set m. (\<lambda>(k, n). nodeId n) p = fst p" by (simp only: map_eq_conv)
  with b show ?thesis by auto
qed

lemma keyedByIdI: "distinct (map fst m) \<Longrightarrow> (\<And>k n. (k, n) \<in> set m \<Longrightarrow> nodeId n = k) \<Longrightarrow> keyedById m"
  unfolding keyedById_def by (auto simp: map_eq_conv)

lemma keyedById_map_set: "keyedById m \<Longrightarrow> nodeId v = k \<Longrightarrow> keyedById (map_set k v m)"
proof (rule keyedByIdI)
  assume a: "keyedById m" and b: "nodeId v = k"
  show "distinct (map fst (map_set k v m))"
    using a by (simp add: keyedById_def distinct_map_set)
  fix k' n assume "(k', n) \<in> set (map_set k v m)"
  then have "(k', n) = (k, v) \<or> (k', n) \<in> set m" using set_map_set_subset[of k v m] by auto
  then show "nodeId n = k'" using a b keyedById_member by auto
qed

lemma keyedById_map_delete: "keyedById m \<Longrightarrow> keyedById (map_delete k m)"
proof (rule keyedByIdI)
  assume a: "keyedById m"
  show "distinct (map fst (map_delete k m))"
    using a by (simp add: keyedById_def distinct_map_delete)
  fix k' n assume "(k', n) \<in> set (map_delete k m)"
  then have "(k', n) \<in> set m" using set_map_delete_subset[of k m] by auto
  then show "nodeId n = k'" using a keyedById_member by auto
qed


lemma nodeId_fundingSourceNode: "nodeId fundingSourceNode = FUNDING_SOURCE_ID"
  by (simp add: fundingSourceNode_def)

lemma nodeId_grantNode: "nodeId (grantNode g) = id' g"
  by (simp add: grantNode_def)

lemma nodeId_recipientNode: "nodeId (recipientNode ps g) = RECIPIENT_PREFIX @ recipient g"
  by (simp add: recipientNode_def Let_def split: profileLookup.splits)

lemma isRecipient_recipientNode: "isRecipient (recipientNode ps g) = Some True"
  by (simp add: recipientNode_def Let_def split: profileLookup.splits)

lemma isRecipient_grantNode: "isRecipient (grantNode g) = None"
  by (simp add: grantNode_def)

lemma keyedById_fold_addGrantNode: "keyedById m \<Longrightarrow> keyedById (fold addGrantNode items m)"
  by (induction items arbitrary: m) (auto simp: addGrantNode_def keyedById_map_set nodeId_grantNode)

lemma keyedById_fold_addRecipientNode:
  "keyedById m \<Longrightarrow> keyedById (fold (addRecipientNode pf ps) items m)"
  by (induction items arbitrary: m)
     (auto simp: addRecipientNode_def Let_def keyedById_map_set nodeId_recipientNode)

lemma keyedById_buildNodesMap: "keyedById (buildNodesMap pf ps items)"
  unfolding buildNodesMap_def
  by (intro keyedById_fold_addRecipientNode keyedById_fold_addGrantNode)
     (simp add: keyedById_def map_set_def nodeId_fundingSourceNode)

lemma has_buildNodesMap:
  "map_has k (buildNodesMap pf ps items) \<longleftrightarrow>
     k = FUNDING_SOURCE_ID \<or> k \<in> id' ` set items \<or>
     (\<exists>g\<in>set items. isTerminal pf g \<and> k = RECIPIENT_PREFIX @ recipient g)"
  unfolding buildNodesMap_def
  by (auto simp: has_fold_addRecipientNode has_fold_addGrantNode map_has_map_set map_has_Nil)

lemma get_buildNodesMap_grant:
  assumes "k \<in> id' ` set items"
  shows "map_get k (buildNodesMap pf ps items) =
         Some (grantNode (last (filter (\<lambda>h. id' h = k) items)))"
proof -
  let ?m = "fold addGrantNode items (map_set FUNDING_SOURCE_ID fundingSourceNode [])"
  have "map_has k ?m" using assms by (simp add: has_fold_addGrantNode)
  then have "map_get k (buildNodesMap pf ps items) = map_get k ?m"
    unfolding buildNodesMap_def by (rule get_fold_addRecipientNode_keep)
  then show ?thesis using assms by (simp add: get_fold_addGrantNode_last)
qed

lemma get_buildNodesMap_funding:
  assumes "FUNDING_SOURCE_ID \<notin> id' ` set items"
  shows "map_get FUNDING_SOURCE_ID (buildNodesMap pf ps items) = Some fundingSourceNode"
proof -
  let ?m = "fold addGrantNode items (map_set FUNDING_SOURCE_ID fundingSourceNode [])"
  have "map_has FUNDING_SOURCE_ID ?m" by (simp add: has_fold_addGrantNode map_has_map_set)
  then have "map_get FUNDING_SOURCE_ID (buildNodesMap pf ps items) = map_get FUNDING_SOURCE_ID ?m"
    unfolding buildNodesMap_def by (rule get_fold_addRecipientNode_keep)
  then show ?thesis using assms by (simp add: get_fold_addGrantNode_other map_get_map_set)
qed

lemma get_buildNodesMap_recipient:
  assumes "RECIPIENT_PREFIX @ a \<notin> id' ` set items"
    and "filter (\<lambda>h. isTerminal pf h \<and> recipient h = a) items \<noteq> []"
  shows "map_get (RECIPIENT_PREFIX @ a) (buildNodesMap pf ps items) =
         Some (recipientNode ps (hd (filter (\<lambda>h. isTerminal pf h \<and> recipient h = a) items)))"
proof -
  let ?m = "fold addGrantNode items (map_set FUNDING_SOURCE_ID fundingSourceNode [])"
  have "RECIPIENT_PREFIX @ a \<noteq> FUNDING_SOURCE_ID"
    by (simp add: RECIPIENT_PREFIX_def FUNDING_SOURCE_ID_def)
  then have "\<not> map_has (RECIPIENT_PREFIX @ a) ?m"
    using assms(1) by (simp add: has_fold_addGrantNode map_has_map_set map_has_Nil)
  then show ?thesis
    unfolding buildNodesMap_def using assms(2) by (rule get_fold_addRecipientNode_first)
qed

subsection \<open>The link passes\<close>

lemma addInboundLink_append: "addInboundLink pf m g ls = ls @ addInboundLink pf m g []"
  by (simp add: addInboundLink_def Let_def)

lemma addRecipientLink_append: "addRecipientLink pf m g ls = ls @ addRecipientLink pf m g []"
  by (simp add: addRecipientLink_def Let_def)

lemma fold_addInboundLink:
  "fold (addInboundLink pf m) items ls = ls @ concat (map (\<lambda>g. addInboundLink pf m g []) items)"
proof (induction items arbitrary: ls)
  case Nil
  then show ?case by simp
next
  case (Cons x xs)
  show ?case
    by (simp add: Cons.IH) (subst addInboundLink_append, simp)
qed

lemma fold_addRecipientLink:
  "fold (addRecipientLink pf m) items ls = ls @ concat (map (\<lambda>g. addRecipientLink pf m g []) items)"
proof (induction items arbitrary: ls)
  case Nil
  then show ?case by simp
next
  case (Cons x xs)
  show ?case
    by (simp add: Cons.IH) (subst addRecipientLink_append, simp)
qed

lemma buildLinks_concat:
  "buildLinks pf m items =
     concat (map (\<lambda>g. addInboundLink pf m g []) items) @
     concat (map (\<lambda>g. addRecipientLink pf m g []) items)"
  by (simp add: buildLinks_def fold_addInboundLink fold_addRecipientLink)

lemma actualSourceId_has: "map_has FUNDING_SOURCE_ID m \<Longrightarrow> map_has (actualSourceId m g) m"
  by (simp add: actualSourceId_def split: option.splits)

lemma addInboundLink_endpoints:
  "map_has FUNDING_SOURCE_ID m \<Longrightarrow> l \<in> set (addInboundLink pf m g []) \<Longrightarrow>
   map_has (source l) m \<and> map_has (target l) m"
  by (auto simp: addInboundLink_def Let_def actualSourceId_has split: if_splits)

lemma addRecipientLink_endpoints:
  "map_has (id' g) m \<Longrightarrow> l \<in> set (addRecipientLink pf m g []) \<Longrightarrow>
   map_has (source l) m \<and> map_has (target l) m"
  by (auto simp: addRecipientLink_def Let_def split: if_splits)

lemma buildLinks_endpoints:
  assumes "map_has FUNDING_SOURCE_ID m" and "\<And>g. g \<in> set items \<Longrightarrow> map_has (id' g) m"
    and "l \<in> set (buildLinks pf m items)"
  shows "map_has (source l) m \<and> map_has (target l) m"
proof -
  from assms(3) consider g where "g \<in> set items" "l \<in> set (addInboundLink pf m g [])"
    | g where "g \<in> set items" "l \<in> set (addRecipientLink pf m g [])"
    by (auto simp: buildLinks_concat)
  then show ?thesis
  proof cases
    case 1
    then show ?thesis using assms(1) addInboundLink_endpoints by blast
  next
    case 2
    then show ?thesis using assms(2) addRecipientLink_endpoints by blast
  qed
qed

subsection \<open>The connectivity filter\<close>

lemma fold_collect:
  "fold (\<lambda>link nodesWithLinks. insert (target link) (insert (source link) nodesWithLinks)) ls S =
   S \<union> source ` set ls \<union> target ` set ls"
  by (induction ls arbitrary: S) auto

lemma collectNodesWithLinks_eq: "collectNodesWithLinks ls = source ` set ls \<union> target ` set ls"
  by (simp add: collectNodesWithLinks_def fold_collect)

lemma fold_filterNodes:
  "distinct (map fst (acc @ m)) \<Longrightarrow>
   fold (\<lambda>(k, node) filteredNodesMap.
           if k \<in> S then map_set k node filteredNodesMap else filteredNodesMap) m acc =
   acc @ filter (\<lambda>(k, node). k \<in> S) m"
proof (induction m arbitrary: acc)
  case Nil
  then show ?case by simp
next
  case (Cons p m)
  obtain k n where p: "p = (k, n)" by (cases p)
  from Cons.prems have notin: "\<not> map_has k acc" by (auto simp: p map_has_def)
  show ?case
  proof (cases "k \<in> S")
    case True
    from Cons.prems have "distinct (map fst ((acc @ [(k, n)]) @ m))" by (simp add: p)
    from Cons.IH[OF this] True notin show ?thesis by (simp add: p map_set_new)
  next
    case False
    from Cons.prems have "distinct (map fst (acc @ m))" by (simp add: p)
    from Cons.IH[OF this] False show ?thesis by (simp add: p)
  qed
qed

lemma filterNodesMap_eq:
  "distinct (map fst m) \<Longrightarrow> filterNodesMap S m = filter (\<lambda>(k, node). k \<in> S) m"
  using fold_filterNodes[of "[]" m S] by (simp add: filterNodesMap_def)

lemma has_filter: "map_has k (filter (\<lambda>(k, node). P k) m) \<longleftrightarrow> P k \<and> map_has k m"
  by (auto simp: map_has_def)

lemma connectivityFilter_eq:
  assumes "distinct (map fst m)"
  shows "connectivityFilter (m, ls) =
         (filter (\<lambda>(k, node). k \<in> source ` set ls \<union> target ` set ls) m,
          filter (\<lambda>link. map_has (source link) m \<and> map_has (target link) m) ls)"
proof -
  let ?S = "source ` set ls \<union> target ` set ls"
  let ?F = "filter (\<lambda>(k, node). k \<in> ?S) m"
  have "filterLinks ?F ls = filter (\<lambda>link. map_has (source link) m \<and> map_has (target link) m) ls"
    unfolding filterLinks_def by (rule filter_cong) (auto simp: has_filter)
  then show ?thesis
    using assms by (simp add: connectivityFilter_def Let_def collectNodesWithLinks_eq filterNodesMap_eq)
qed

subsection \<open>The state before the filter and the graph\<close>

lemma has_FS_buildNodesMap: "map_has FUNDING_SOURCE_ID (buildNodesMap pf ps items)"
  by (simp add: has_buildNodesMap)

lemma has_id_buildNodesMap: "g \<in> set items \<Longrightarrow> map_has (id' g) (buildNodesMap pf ps items)"
  by (simp add: has_buildNodesMap)

lemma links_endpoints_buildNodesMap:
  "l \<in> set (buildLinks pf (buildNodesMap pf ps items) items) \<Longrightarrow>
   map_has (source l) (buildNodesMap pf ps items) \<and> map_has (target l) (buildNodesMap pf ps items)"
  using buildLinks_endpoints[OF has_FS_buildNodesMap, of items pf ps items l pf]
  by (simp add: has_id_buildNodesMap)

lemma keyedById_removeFundingSource: "keyedById m \<Longrightarrow> keyedById (removeFundingSource m ls)"
  by (simp add: removeFundingSource_def keyedById_map_delete)

lemma has_removeFundingSource:
  "map_has k (removeFundingSource m ls) \<longleftrightarrow>
   map_has k m \<and> (k = FUNDING_SOURCE_ID \<longrightarrow> (\<exists>l\<in>set ls. source l = FUNDING_SOURCE_ID))"
  by (auto simp: removeFundingSource_def map_has_map_delete list_ex_iff)

lemma set_removeFundingSource_subset: "set (removeFundingSource m ls) \<subseteq> set m"
  using set_map_delete_subset[of FUNDING_SOURCE_ID m] by (auto simp: removeFundingSource_def)

lemma fst_preFilter:
  "fst (preFilter pf items ps) =
   removeFundingSource (buildNodesMap pf ps items) (buildLinks pf (buildNodesMap pf ps items) items)"
  by (simp add: preFilter_def Let_def)

lemma snd_preFilter:
  "snd (preFilter pf items ps) = buildLinks pf (buildNodesMap pf ps items) items"
  by (simp add: preFilter_def Let_def)

lemma keyedById_preFilter: "keyedById (fst (preFilter pf items ps))"
  by (simp add: fst_preFilter keyedById_removeFundingSource keyedById_buildNodesMap)

lemma buildGraph_eq:
  "buildGraph pf items ps =
   \<lparr> nodes = map_values (filter (\<lambda>(k, node). k \<in> source ` set (snd (preFilter pf items ps)) \<union>
                                             target ` set (snd (preFilter pf items ps)))
                            (fst (preFilter pf items ps))),
     links = filter (\<lambda>link. map_has (source link) (fst (preFilter pf items ps)) \<and>
                            map_has (target link) (fst (preFilter pf items ps)))
                    (snd (preFilter pf items ps)) \<rparr>"
proof -
  have "distinct (map fst (fst (preFilter pf items ps)))"
    using keyedById_preFilter[of pf items ps] by (simp add: keyedById_def)
  from connectivityFilter_eq[OF this, of "snd (preFilter pf items ps)"]
  show ?thesis by (simp add: buildGraph_def)
qed





subsection \<open>Evaluating the examples\<close>

lemmas parseFloat_defs = parseFloat_def splitSign_def isWhiteSpace_def isDigit_def
  digitsValue_def exponentPart_def pow10_def toDouble_def

lemma toLowerCase_0xabc: "toLowerCase ''0xabc'' = ''0xabc''"
  by code_simp

lemma parseFloat_100: "parseFloat ''100'' = Fin 100"
  by (simp add: parseFloat_defs)

lemma parseFloat_0: "parseFloat ''0'' = Fin 0"
  by (simp add: parseFloat_defs)

lemma parseFloat_abc: "parseFloat ''abc'' = NaN"
  by (simp add: parseFloat_defs)

lemmas example_defs = exampleGrant_def grantZeroIncoming_def grantUnparsableIncoming_def
  grantUnparsableOutgoing_def secondGrant_def grantUpperCase_def grantReservedId_def
  grantEmptyId_def grantRecipientId_def grantEmptyFlowId_def flowA_def grantReservedIdFromA_def

lemmas builder_defs = buildGraph_def preFilter_def connectivityFilter_def buildNodesMap_def
  buildLinks_def addGrantNode_def addRecipientNode_def addInboundLink_def addRecipientLink_def
  isTerminal_def map_has_def map_set_def map_delete_def removeFundingSource_def
  collectNodesWithLinks_def filterNodesMap_def filterLinks_def map_values_def
  actualSourceId_def Let_def

lemmas eval_simps = example_defs builder_defs parseFloat_100 parseFloat_0 parseFloat_abc

lemma example_links:
  "buildLinks parseFloat (buildNodesMap parseFloat noProfiles [exampleGrant]) [exampleGrant] =
     [\<lparr> source = FUNDING_SOURCE_ID, target = ''g1'', linkValue = Fin 100 \<rparr>,
      \<lparr> source = ''g1'', target = ''recipient_0xabc'', linkValue = Fin 100 \<rparr>]"
  by (simp add: eval_simps FUNDING_SOURCE_ID_def RECIPIENT_PREFIX_def)

lemma example_graph:
  "buildGraph parseFloat [exampleGrant] noProfiles =
     \<lparr> nodes = [fundingSourceNode, grantNode exampleGrant, recipientNode noProfiles exampleGrant],
       links = [\<lparr> source = FUNDING_SOURCE_ID, target = ''g1'', linkValue = Fin 100 \<rparr>,
                \<lparr> source = ''g1'', target = ''recipient_0xabc'', linkValue = Fin 100 \<rparr>] \<rparr>"
  by (simp add: eval_simps FUNDING_SOURCE_ID_def RECIPIENT_PREFIX_def)

lemma example_nodes_explicit:
  "[fundingSourceNode, grantNode exampleGrant, recipientNode noProfiles exampleGrant] =
     [\<lparr> nodeId = ''___funding_source___'', name = ''Funding Source'', title' = None,
        originalData = None, isRecipient = None, isFlow' = None, username' = None,
        profileUrl = None, flowUrl = None, itemUrl = None \<rparr>,
      \<lparr> nodeId = ''g1'', name = ''Grant 1'', title' = Some ''Grant 1'',
        originalData = Some exampleGrant, isRecipient = None, isFlow' = Some False,
        username' = None, profileUrl = None, flowUrl = None,
        itemUrl = Some ''https://flows.wtf/item/g1'' \<rparr>,
      \<lparr> nodeId = ''recipient_0xabc'', name = ''0xabc'', title' = Some ''Recipient: 0xabc'',
        originalData = None, isRecipient = Some True, isFlow' = None, username' = None,
        profileUrl = None, flowUrl = None, itemUrl = None \<rparr>]"
  by (simp add: fundingSourceNode_def grantNode_def recipientNode_def lookupProfile_def
      Let_def toLowerCase_0xabc noProfiles_def
      exampleGrant_def FUNDING_SOURCE_ID_def RECIPIENT_PREFIX_def)

lemma zero_graph:
  "buildGraph parseFloat [grantZeroIncoming] noProfiles = \<lparr> nodes = [], links = [] \<rparr>"
  by (simp add: eval_simps FUNDING_SOURCE_ID_def RECIPIENT_PREFIX_def)

lemma zero_preFilter:
  "preFilter parseFloat [grantZeroIncoming] noProfiles =
     ([(''g1'', grantNode grantZeroIncoming),
       (''recipient_0xabc'', recipientNode noProfiles grantZeroIncoming)], [])"
  by (simp add: eval_simps FUNDING_SOURCE_ID_def RECIPIENT_PREFIX_def)

subsection \<open>Where the nodes come from\<close>

lemma member_fold_addGrantNode:
  "(k, n) \<in> set (fold addGrantNode items m) \<Longrightarrow>
   (k, n) \<in> set m \<or> (\<exists>g\<in>set items. n = grantNode g)"
proof (induction items arbitrary: m)
  case Nil
  then show ?case by simp
next
  case (Cons x xs)
  from Cons.prems have "(k, n) \<in> set (fold addGrantNode xs (addGrantNode x m))" by simp
  from Cons.IH[OF this] show ?case
    using set_map_set_subset[of "id' x" "grantNode x" m] by (auto simp: addGrantNode_def)
qed

lemma member_fold_addRecipientNode:
  "(k, n) \<in> set (fold (addRecipientNode pf ps) items m) \<Longrightarrow>
   (k, n) \<in> set m \<or> (\<exists>g\<in>set items. isTerminal pf g \<and> n = recipientNode ps g)"
proof (induction items arbitrary: m)
  case Nil
  then show ?case by simp
next
  case (Cons x xs)
  from Cons.prems have "(k, n) \<in> set (fold (addRecipientNode pf ps) xs (addRecipientNode pf ps x m))"
    by simp
  from Cons.IH[OF this] show ?case
    using set_map_set_subset[of "RECIPIENT_PREFIX @ recipient x" "recipientNode ps x" m]
    by (auto simp: addRecipientNode_def Let_def split: if_splits)
qed

lemma member_buildNodesMap:
  assumes "(k, n) \<in> set (buildNodesMap pf ps items)"
  shows "n = fundingSourceNode \<or> (\<exists>g\<in>set items. n = grantNode g) \<or>
         (\<exists>g\<in>set items. isTerminal pf g \<and> n = recipientNode ps g)"
proof -
  let ?m0 = "map_set FUNDING_SOURCE_ID fundingSourceNode []"
  from assms have "(k, n) \<in> set (fold addGrantNode items ?m0) \<or>
      (\<exists>g\<in>set items. isTerminal pf g \<and> n = recipientNode ps g)"
    unfolding buildNodesMap_def by (rule member_fold_addRecipientNode)
  moreover have "(k, n) \<in> set ?m0 \<or> (\<exists>g\<in>set items. n = grantNode g)"
    if "(k, n) \<in> set (fold addGrantNode items ?m0)"
    using that by (rule member_fold_addGrantNode)
  moreover have "n = fundingSourceNode" if "(k, n) \<in> set ?m0"
    using that by (simp add: map_set_def)
  ultimately show ?thesis by blast
qed

lemma nodes_subset_buildNodesMap:
  "n \<in> set (nodes (buildGraph pf items ps)) \<Longrightarrow> \<exists>k. (k, n) \<in> set (buildNodesMap pf ps items)"
  using set_removeFundingSource_subset
  by (fastforce simp: buildGraph_eq map_values_def fst_preFilter)

lemma isRecipient_fundingSourceNode: "isRecipient fundingSourceNode = None"
  by (simp add: fundingSourceNode_def)

lemma recipientNodes_origin:
  assumes "n \<in> set (recipientNodes (buildGraph pf items ps))"
  shows "\<exists>g\<in>set items. isTerminal pf g \<and> n = recipientNode ps g"
proof -
  from assms have n: "n \<in> set (nodes (buildGraph pf items ps))" and r: "isRecipient n = Some True"
    by (simp_all add: recipientNodes_def)
  from n obtain k where "(k, n) \<in> set (buildNodesMap pf ps items)"
    using nodes_subset_buildNodesMap by blast
  from member_buildNodesMap[OF this] r show ?thesis
    by (auto simp: isRecipient_fundingSourceNode isRecipient_grantNode)
qed

lemma distinct_map_filter_le1:
  "distinct (map f xs) \<Longrightarrow> length (filter (\<lambda>x. f x = v) xs) \<le> 1"
proof (induction xs)
  case Nil
  then show ?case by simp
next
  case (Cons x xs)
  show ?case
  proof (cases "f x = v")
    case True
    from Cons.prems have nin: "f x \<notin> f ` set xs" by simp
    have "f y \<noteq> v" if "y \<in> set xs" for y
    proof
      assume "f y = v"
      with True that have "f x \<in> f ` set xs" by (metis imageI)
      with nin show False by simp
    qed
    then have "filter (\<lambda>x. f x = v) xs = []"
      by (simp add: filter_empty_conv)
    with True show ?thesis by simp
  next
    case False
    with Cons show ?thesis by simp
  qed
qed




subsection \<open>Evaluating the inputs with unusual ids\<close>

lemma reserved_nodesMap:
  "buildNodesMap parseFloat noProfiles [grantReservedId] =
     [(FUNDING_SOURCE_ID, grantNode grantReservedId),
      (''recipient_0xabc'', recipientNode noProfiles grantReservedId)]"
  by (simp add: eval_simps FUNDING_SOURCE_ID_def RECIPIENT_PREFIX_def)

lemma reserved_graph:
  "buildGraph parseFloat [grantReservedId] noProfiles =
     \<lparr> nodes = [grantNode grantReservedId, recipientNode noProfiles grantReservedId],
       links = [\<lparr> source = FUNDING_SOURCE_ID, target = FUNDING_SOURCE_ID, linkValue = Fin 100 \<rparr>,
                \<lparr> source = FUNDING_SOURCE_ID, target = ''recipient_0xabc'', linkValue = Fin 100 \<rparr>] \<rparr>"
  by (simp add: eval_simps FUNDING_SOURCE_ID_def RECIPIENT_PREFIX_def)

lemma reserved_grantNode:
  "name (grantNode grantReservedId) = ''Grant 1''"
  "originalData (grantNode grantReservedId) = Some grantReservedId"
  "nodeId (grantNode grantReservedId) = FUNDING_SOURCE_ID"
  by (simp_all add: grantNode_def grantReservedId_def exampleGrant_def FUNDING_SOURCE_ID_def)

lemma example_ids: "id' exampleGrant = ''g1''" "id' secondGrant = ''g2''"
  by (simp_all add: exampleGrant_def secondGrant_def)

subsection \<open>What one item adds to the links\<close>

lemma addInboundLink_positive:
  assumes "gt_zero (pf (monthlyIncomingFlowRate g))" and "map_has (id' g) m"
  shows "addInboundLink pf m g ls =
         ls @ [\<lparr> source = actualSourceId m g, target = id' g,
                 linkValue = pf (monthlyIncomingFlowRate g) \<rparr>]"
  using assms by (simp add: addInboundLink_def Let_def gt_zero_not_le_zero)

lemma addRecipientLink_terminal_positive:
  assumes "isTerminal pf g" and "gt_zero (pf (monthlyIncomingFlowRate g))"
    and "map_has (RECIPIENT_PREFIX @ recipient g) m"
  shows "addRecipientLink pf m g ls =
         ls @ [\<lparr> source = id' g, target = RECIPIENT_PREFIX @ recipient g,
                 linkValue = pf (monthlyIncomingFlowRate g) \<rparr>]"
  using assms by (simp add: addRecipientLink_def Let_def)

lemma has_recipient_buildNodesMap:
  "g \<in> set items \<Longrightarrow> isTerminal pf g \<Longrightarrow>
   map_has (RECIPIENT_PREFIX @ recipient g) (buildNodesMap pf ps items)"
  by (auto simp: has_buildNodesMap)

lemma example_contributedLinks:
  "contributedLinks parseFloat (buildNodesMap parseFloat noProfiles [exampleGrant]) exampleGrant =
     [\<lparr> source = FUNDING_SOURCE_ID, target = ''g1'', linkValue = Fin 100 \<rparr>,
      \<lparr> source = ''g1'', target = ''recipient_0xabc'', linkValue = Fin 100 \<rparr>]"
  by (simp add: contributedLinks_def eval_simps FUNDING_SOURCE_ID_def RECIPIENT_PREFIX_def)

lemma example_rates:
  "parseFloat (monthlyIncomingFlowRate exampleGrant) = Fin 100"
  "parseFloat (monthlyOutgoingFlowRate exampleGrant) = Fin 0"
  "recipient exampleGrant = ''0xabc''"
  "flowId exampleGrant = None"
  by (simp_all add: exampleGrant_def parseFloat_100 parseFloat_0)

subsection \<open>Evaluating the empty flow id and the rates that do not parse\<close>

lemma parseFloat_rates:
  "parseFloat (monthlyIncomingFlowRate grantEmptyFlowId) = Fin 100"
  "parseFloat (monthlyIncomingFlowRate grantUnparsableIncoming) = NaN"
  "parseFloat (monthlyOutgoingFlowRate grantUnparsableOutgoing) = NaN"
  by (simp_all add: example_defs parseFloat_100 parseFloat_abc)



lemma unparsableIncoming_graph:
  "buildGraph parseFloat [grantUnparsableIncoming] noProfiles =
     \<lparr> nodes = [fundingSourceNode, grantNode grantUnparsableIncoming],
       links = [\<lparr> source = FUNDING_SOURCE_ID, target = ''g1'', linkValue = NaN \<rparr>] \<rparr>"
  by (simp add: eval_simps FUNDING_SOURCE_ID_def RECIPIENT_PREFIX_def)

lemma unparsableOutgoing_graph:
  "buildGraph parseFloat [grantUnparsableOutgoing] noProfiles =
     \<lparr> nodes = [fundingSourceNode, grantNode grantUnparsableOutgoing],
       links = [\<lparr> source = FUNDING_SOURCE_ID, target = ''g1'', linkValue = Fin 100 \<rparr>] \<rparr>"
  by (simp add: eval_simps FUNDING_SOURCE_ID_def RECIPIENT_PREFIX_def)

lemma unparsableOutgoing_nodesMap:
  "buildNodesMap parseFloat noProfiles [grantUnparsableOutgoing] =
     [(FUNDING_SOURCE_ID, fundingSourceNode), (''g1'', grantNode grantUnparsableOutgoing)]"
  by (simp add: eval_simps FUNDING_SOURCE_ID_def RECIPIENT_PREFIX_def)


subsection \<open>The ends of the links are nodes\<close>

lemma addInboundLink_target: "l \<in> set (addInboundLink pf m g []) \<Longrightarrow> target l = id' g"
  by (auto simp: addInboundLink_def Let_def split: if_splits)

lemma addRecipientLink_target:
  "l \<in> set (addRecipientLink pf m g []) \<Longrightarrow> target l = RECIPIENT_PREFIX @ recipient g"
  by (auto simp: addRecipientLink_def Let_def split: if_splits)

lemma recipient_id_not_reserved: "RECIPIENT_PREFIX @ a \<noteq> FUNDING_SOURCE_ID"
  by (simp add: RECIPIENT_PREFIX_def FUNDING_SOURCE_ID_def)

lemma buildLinks_target:
  assumes "l \<in> set (buildLinks pf m items)"
  shows "target l \<in> id' ` set items \<or> (\<exists>a. target l = RECIPIENT_PREFIX @ a)"
proof -
  from assms consider g where "g \<in> set items" "l \<in> set (addInboundLink pf m g [])"
    | g where "g \<in> set items" "l \<in> set (addRecipientLink pf m g [])"
    by (auto simp: buildLinks_concat)
  then show ?thesis
  proof cases
    case 1
    then show ?thesis using addInboundLink_target by blast
  next
    case 2
    then show ?thesis using addRecipientLink_target by blast
  qed
qed

lemma preFilter_endpoints:
  assumes "FUNDING_SOURCE_ID \<notin> id' ` set items" and "l \<in> set (snd (preFilter pf items ps))"
  shows "map_has (source l) (fst (preFilter pf items ps)) \<and>
         map_has (target l) (fst (preFilter pf items ps))"
proof -
  let ?NM = "buildNodesMap pf ps items"
  from assms(2) have l: "l \<in> set (buildLinks pf ?NM items)" by (simp add: snd_preFilter)
  then have e: "map_has (source l) ?NM \<and> map_has (target l) ?NM"
    by (rule links_endpoints_buildNodesMap)
  have "target l \<noteq> FUNDING_SOURCE_ID"
  proof
    assume eq: "target l = FUNDING_SOURCE_ID"
    from buildLinks_target[OF l] show False
    proof
      assume "target l \<in> id' ` set items"
      with eq assms(1) show False by simp
    next
      assume "\<exists>a. target l = RECIPIENT_PREFIX @ a"
      then obtain a where "target l = RECIPIENT_PREFIX @ a" ..
      with eq recipient_id_not_reserved[of a] show False by simp
    qed
  qed
  with e l show ?thesis
    by (auto simp: fst_preFilter has_removeFundingSource)
qed

lemma connectivityFilter_closed:
  assumes "distinct (map fst m)"
    and "\<forall>l\<in>set ls. map_has (source l) m \<and> map_has (target l) m"
  shows "connectivityFilter (m, ls) =
           (filter (\<lambda>(k, node). k \<in> source ` set ls \<union> target ` set ls) m, ls)"
proof -
  from assms(2) have "filter (\<lambda>link. map_has (source link) m \<and> map_has (target link) m) ls = ls"
    by (simp add: filter_id_conv)
  with connectivityFilter_eq[OF assms(1), of ls] show ?thesis by simp
qed

lemma connectivityFilter_twice:
  assumes "distinct (map fst m)"
    and "\<forall>l\<in>set ls. map_has (source l) m \<and> map_has (target l) m"
  shows "connectivityFilter (connectivityFilter (m, ls)) = connectivityFilter (m, ls)"
proof -
  let ?F = "filter (\<lambda>(k, node). k \<in> source ` set ls \<union> target ` set ls) m"
  have d: "distinct (map fst ?F)" using assms(1) by (rule distinct_map_filter)
  have "\<forall>l\<in>set ls. map_has (source l) ?F \<and> map_has (target l) ?F"
    using assms(2) by (auto simp: has_filter)
  from connectivityFilter_closed[OF d this]
  have "connectivityFilter (?F, ls) = (?F, ls)" by (simp add: case_prod_unfold)
  then show ?thesis by (simp add: connectivityFilter_closed[OF assms])
qed

lemma has_connectivityFilter:
  assumes "distinct (map fst m)"
  shows "map_has k (fst (connectivityFilter (m, ls))) \<longleftrightarrow>
         map_has k m \<and> (\<exists>l\<in>set ls. source l = k \<or> target l = k)"
  by (auto simp: connectivityFilter_eq[OF assms] has_filter)

lemma collision_filter:
  "connectivityFilter
     ([(''a'', grantNode flowA)],
      [\<lparr> source = ''a'', target = FUNDING_SOURCE_ID, linkValue = Fin 100 \<rparr>]) =
     ([(''a'', grantNode flowA)], [])"
  by (simp add: connectivityFilter_def collectNodesWithLinks_def filterNodesMap_def
      filterLinks_def Let_def map_has_def map_set_def FUNDING_SOURCE_ID_def)

lemma collision_filter_again:
  "connectivityFilter ([(''a'', grantNode flowA)], []) = ([], [])"
  by (simp add: connectivityFilter_def collectNodesWithLinks_def filterNodesMap_def
      filterLinks_def Let_def)

lemma collision_preFilter:
  "preFilter parseFloat [flowA, grantReservedIdFromA] noProfiles =
     ([(''a'', grantNode flowA)],
      [\<lparr> source = ''a'', target = FUNDING_SOURCE_ID, linkValue = Fin 100 \<rparr>])"
  by (simp add: eval_simps FUNDING_SOURCE_ID_def RECIPIENT_PREFIX_def)

lemma example_preFilter:
  "preFilter parseFloat [exampleGrant] noProfiles =
     ([(FUNDING_SOURCE_ID, fundingSourceNode), (''g1'', grantNode exampleGrant),
       (''recipient_0xabc'', recipientNode noProfiles exampleGrant)],
      [\<lparr> source = FUNDING_SOURCE_ID, target = ''g1'', linkValue = Fin 100 \<rparr>,
       \<lparr> source = ''g1'', target = ''recipient_0xabc'', linkValue = Fin 100 \<rparr>])"
  by (simp add: eval_simps FUNDING_SOURCE_ID_def RECIPIENT_PREFIX_def)

subsection \<open>One entry for each key\<close>

lemma length_filter_key:
  assumes "distinct (map fst m)" and "map_has k m"
  shows "length (filter (\<lambda>(k', n). k' = k) m) = 1"
proof -
  have eq: "filter (\<lambda>(k', n). k' = k) m = filter (\<lambda>p. fst p = k) m"
    by (simp add: case_prod_unfold)
  have "length (filter (\<lambda>p. fst p = k) m) \<le> 1"
    using assms(1) by (rule distinct_map_filter_le1)
  moreover have "filter (\<lambda>p. fst p = k) m \<noteq> []"
    using assms(2) by (auto simp: filter_empty_conv map_has_def)
  then have "length (filter (\<lambda>p. fst p = k) m) \<noteq> 0" by simp
  ultimately show ?thesis unfolding eq by linarith
qed

lemma addRecipientNode_present:
  "map_has (RECIPIENT_PREFIX @ recipient h) m \<Longrightarrow> addRecipientNode pf ps h m = m"
  by (simp add: addRecipientNode_def Let_def)

lemma alice_recipientNode:
  "recipientNode aliceProfiles exampleGrant =
     \<lparr> nodeId = ''recipient_0xabc'', name = ''Alice (alice)'',
       title' = Some ''Recipient: Alice'', originalData = None, isRecipient = Some True,
       isFlow' = None, username' = Some ''alice'',
       profileUrl = Some ''https://warpcast.com/alice'', flowUrl = None, itemUrl = None \<rparr>"
  by (simp add: recipientNode_def lookupProfile_def Let_def example_rates toLowerCase_0xabc aliceProfiles_def
      RECIPIENT_PREFIX_def)

lemma repeated_facts:
  "isTerminal parseFloat exampleGrant" "isTerminal parseFloat secondGrant"
  "isTerminal parseFloat repeatedGrant"
  "recipient secondGrant = ''0xabc''" "recipient repeatedGrant = ''0xabc''"
  "id' repeatedGrant = ''g1''" "exampleGrant \<noteq> repeatedGrant"
  "title repeatedGrant = ''Grant 1 again''"
  by (simp_all add: isTerminal_def exampleGrant_def secondGrant_def repeatedGrant_def parseFloat_0)

lemma recipientId_nodesMap:
  "buildNodesMap parseFloat noProfiles [grantRecipientId, exampleGrant, secondGrant] =
     [(FUNDING_SOURCE_ID, fundingSourceNode), (''recipient_0xabc'', grantNode grantRecipientId),
      (''g1'', grantNode exampleGrant), (''g2'', grantNode secondGrant)]"
  by (simp add: eval_simps FUNDING_SOURCE_ID_def RECIPIENT_PREFIX_def)

lemma recipientId_graph:
  "buildGraph parseFloat [grantRecipientId, exampleGrant, secondGrant] noProfiles =
     \<lparr> nodes = [fundingSourceNode, grantNode grantRecipientId, grantNode exampleGrant,
                grantNode secondGrant],
       links = [\<lparr> source = FUNDING_SOURCE_ID, target = ''g1'', linkValue = Fin 100 \<rparr>,
                \<lparr> source = FUNDING_SOURCE_ID, target = ''g2'', linkValue = Fin 100 \<rparr>,
                \<lparr> source = ''g1'', target = ''recipient_0xabc'', linkValue = Fin 100 \<rparr>,
                \<lparr> source = ''g2'', target = ''recipient_0xabc'', linkValue = Fin 100 \<rparr>] \<rparr>"
  by (simp add: eval_simps FUNDING_SOURCE_ID_def RECIPIENT_PREFIX_def)

lemma recipientId_grantNode:
  "name (grantNode grantRecipientId) = ''X''" "id' grantRecipientId = ''recipient_0xabc''"
  by (simp_all add: grantNode_def grantRecipientId_def grantEmptyId_def)


subsection \<open>The nodes at the ends of a terminal grant's links\<close>

lemma recipientNode_same_recipient:
  "recipient h = recipient g \<Longrightarrow> recipientNode ps h = recipientNode ps g"
  by (simp add: recipientNode_def Let_def split: profileLookup.splits)

lemma originalData_grantNode: "originalData (grantNode g) = Some g"
  by (simp add: grantNode_def)

lemma get_buildNodesMap_recipient_own:
  assumes "g \<in> set items" and "isTerminal pf g"
    and "RECIPIENT_PREFIX @ recipient g \<notin> id' ` set items"
  shows "map_get (RECIPIENT_PREFIX @ recipient g) (buildNodesMap pf ps items) =
         Some (recipientNode ps g)"
proof -
  let ?F = "filter (\<lambda>h. isTerminal pf h \<and> recipient h = recipient g) items"
  from assms(1,2) have ne: "?F \<noteq> []" by (auto simp: filter_empty_conv)
  then have "hd ?F \<in> set ?F" by (rule hd_in_set)
  then have "recipient (hd ?F) = recipient g" by simp
  then have "recipientNode ps (hd ?F) = recipientNode ps g"
    by (rule recipientNode_same_recipient)
  with get_buildNodesMap_recipient[OF assms(3) ne, of ps] show ?thesis by simp
qed


lemma recipientId_contributedLinks:
  "contributedLinks parseFloat
     (buildNodesMap parseFloat noProfiles [grantRecipientId, exampleGrant, secondGrant]) exampleGrant =
     [\<lparr> source = FUNDING_SOURCE_ID, target = ''g1'', linkValue = Fin 100 \<rparr>,
      \<lparr> source = ''g1'', target = ''recipient_0xabc'', linkValue = Fin 100 \<rparr>]"
  by (simp add: contributedLinks_def eval_simps FUNDING_SOURCE_ID_def RECIPIENT_PREFIX_def)

lemma filter_touched_cong:
  "filter (\<lambda>(k, node). k \<in> source ` set ls \<union> target ` set ls) m =
   filter (\<lambda>(k, node). \<exists>l\<in>set ls. source l = k \<or> target l = k) m"
  by (rule filter_cong) auto

lemma snd_connectivityFilter:
  "snd (connectivityFilter (m, ls)) =
     filter (\<lambda>l. map_has (source l) (fst (connectivityFilter (m, ls))) \<and>
                  map_has (target l) (fst (connectivityFilter (m, ls)))) ls"
  by (simp add: connectivityFilter_def Let_def filterLinks_def)

lemma fst_connectivityFilter:
  "distinct (map fst m) \<Longrightarrow>
   fst (connectivityFilter (m, ls)) =
     filter (\<lambda>(k, node). \<exists>l\<in>set ls. source l = k \<or> target l = k) m"
proof -
  assume d: "distinct (map fst m)"
  have "fst (connectivityFilter (m, ls)) =
        filter (\<lambda>(k, node). k \<in> source ` set ls \<union> target ` set ls) m"
    by (simp only: connectivityFilter_eq[OF d] fst_conv)
  also have "\<dots> = filter (\<lambda>(k, node). \<exists>l\<in>set ls. source l = k \<or> target l = k) m"
    by (rule filter_touched_cong)
  finally show ?thesis .
qed

section \<open>Properties of the specification\<close>

text \<open>
  The builder runs only when the item list is not empty (line 163 returns otherwise); the
  theorems below hold for every list.
\<close>

text \<open>
  C1. A grant whose incoming rate does not parse (\<^verbatim>\<open>parseFloat\<close> gives \<^verbatim>\<open>NaN\<close>) adds
  no link to a recipient node. A grant whose outgoing rate does not parse is not terminal,
  whatever its recipient: \<^verbatim>\<open>NaN === 0\<close> is false, so it adds no recipient node and no
  link to a recipient node, and every recipient node of the graph comes from a grant whose
  outgoing rate parsed to zero. No error is raised: the steps have no error branch and
  return the node map and the link list they were given.
\<close>

theorem unparsable_rates:
  "(pf (monthlyIncomingFlowRate g) = NaN \<longrightarrow> addRecipientLink pf m g ls = ls) \<and>
   (pf (monthlyOutgoingFlowRate h) = NaN \<longrightarrow>
      \<not> isTerminal pf h \<and> addRecipientNode pf ps h m = m \<and> addRecipientLink pf m h ls = ls) \<and>
   (\<forall>n\<in>set (recipientNodes (buildGraph pf items ps)).
      \<exists>x\<in>set items. n = recipientNode ps x \<and> pf (monthlyOutgoingFlowRate x) = Fin 0)"
proof -
  have "\<exists>x\<in>set items. n = recipientNode ps x \<and> pf (monthlyOutgoingFlowRate x) = Fin 0"
    if "n \<in> set (recipientNodes (buildGraph pf items ps))" for n
  proof -
    from recipientNodes_origin[OF that] obtain x
      where x: "x \<in> set items" "isTerminal pf x" "n = recipientNode ps x" by blast
    from x(2) have "pf (monthlyOutgoingFlowRate x) = Fin 0"
      by (cases "pf (monthlyOutgoingFlowRate x)") (simp_all add: isTerminal_def)
    with x show ?thesis by blast
  qed
  then show ?thesis
    by (simp add: addRecipientLink_def addRecipientNode_def isTerminal_def Let_def)
qed

theorem unparsable_rates_witness:
  "parseFloat (monthlyIncomingFlowRate grantUnparsableIncoming) = NaN \<and>
   addRecipientLink parseFloat (buildNodesMap parseFloat noProfiles [grantUnparsableIncoming])
     grantUnparsableIncoming [] = [] \<and>
   parseFloat (monthlyOutgoingFlowRate grantUnparsableOutgoing) = NaN \<and>
   \<not> isTerminal parseFloat grantUnparsableOutgoing \<and>
   addRecipientNode parseFloat noProfiles grantUnparsableOutgoing
     (buildNodesMap parseFloat noProfiles [grantUnparsableIncoming]) =
     buildNodesMap parseFloat noProfiles [grantUnparsableIncoming] \<and>
   recipientNodes (buildGraph parseFloat [exampleGrant] noProfiles) =
     [recipientNode noProfiles exampleGrant] \<and>
   parseFloat (monthlyOutgoingFlowRate exampleGrant) = Fin 0"
proof -
  have "recipientNodes (buildGraph parseFloat [exampleGrant] noProfiles) =
     [recipientNode noProfiles exampleGrant]"
    by (simp add: example_graph recipientNodes_def isRecipient_recipientNode
        isRecipient_grantNode isRecipient_fundingSourceNode)
  with unparsable_rates[of parseFloat grantUnparsableIncoming
      "buildNodesMap parseFloat noProfiles [grantUnparsableIncoming]" "[]"
      grantUnparsableOutgoing noProfiles "[exampleGrant]"]
  show ?thesis by (simp add: parseFloat_rates example_rates)
qed

theorem unparsable_rates_counterexample:
  "parseFloat (monthlyIncomingFlowRate grantUnparsableIncoming) = NaN \<and>
   links (buildGraph parseFloat [grantUnparsableIncoming] noProfiles) =
     [\<lparr> source = FUNDING_SOURCE_ID, target = ''g1'', linkValue = NaN \<rparr>] \<and>
   parseFloat (monthlyOutgoingFlowRate grantUnparsableOutgoing) = NaN \<and>
   recipient grantUnparsableOutgoing = ''0xabc'' \<and>
   \<not> isTerminal parseFloat grantUnparsableOutgoing \<and>
   map fst (buildNodesMap parseFloat noProfiles [grantUnparsableOutgoing]) =
     [FUNDING_SOURCE_ID, ''g1''] \<and>
   links (buildGraph parseFloat [grantUnparsableOutgoing] noProfiles) =
     [\<lparr> source = FUNDING_SOURCE_ID, target = ''g1'', linkValue = Fin 100 \<rparr>]"
proof -
  have "recipient grantUnparsableOutgoing = ''0xabc''"
    by (simp add: grantUnparsableOutgoing_def exampleGrant_def)
  then show ?thesis
    by (simp add: parseFloat_rates unparsableIncoming_graph unparsableOutgoing_graph
        unparsableOutgoing_nodesMap isTerminal_def)
qed




text \<open>
  C3. When no grant of the input carries the reserved id, the node stored under the
  reserved id in the node map is the synthetic Funding Source node (named Funding Source),
  and every node of the final graph with that id is this node. The builder does not keep
  the ids apart: a grant whose id is the reserved id replaces the synthetic node.
\<close>

theorem reserved_id_holds_funding_source:
  assumes "FUNDING_SOURCE_ID \<notin> id' ` set items"
  shows "map_get FUNDING_SOURCE_ID (buildNodesMap pf ps items) = Some fundingSourceNode \<and>
         name fundingSourceNode = ''Funding Source'' \<and>
         originalData fundingSourceNode = None \<and>
         (\<forall>n\<in>set (nodes (buildGraph pf items ps)).
            nodeId n = FUNDING_SOURCE_ID \<longrightarrow> n = fundingSourceNode)"
proof -
  let ?NM = "buildNodesMap pf ps items"
  have g: "map_get FUNDING_SOURCE_ID ?NM = Some fundingSourceNode"
    using assms by (rule get_buildNodesMap_funding)
  have "n = fundingSourceNode"
    if n: "n \<in> set (nodes (buildGraph pf items ps))" "nodeId n = FUNDING_SOURCE_ID" for n
  proof -
    from n(1) obtain k where k: "(k, n) \<in> set ?NM"
      using nodes_subset_buildNodesMap by blast
    with keyedById_buildNodesMap have "nodeId n = k" by (rule keyedById_member)
    moreover have "distinct (map fst ?NM)"
      using keyedById_buildNodesMap[of pf ps items] by (simp add: keyedById_def)
    ultimately have "map_get FUNDING_SOURCE_ID ?NM = Some n"
      using k n(2) by (simp add: map_get_Some_iff)
    with g show ?thesis by simp
  qed
  with g show ?thesis by (simp add: fundingSourceNode_def)
qed

theorem reserved_id_holds_funding_source_witness:
  "FUNDING_SOURCE_ID \<notin> id' ` set [exampleGrant] \<and>
   map_get FUNDING_SOURCE_ID (buildNodesMap parseFloat noProfiles [exampleGrant]) = Some fundingSourceNode \<and>
   hd (nodes (buildGraph parseFloat [exampleGrant] noProfiles)) = fundingSourceNode"
proof -
  have h: "FUNDING_SOURCE_ID \<notin> id' ` set [exampleGrant]"
    by (simp add: example_ids FUNDING_SOURCE_ID_def)
  have "hd (nodes (buildGraph parseFloat [exampleGrant] noProfiles)) = fundingSourceNode"
    by (simp add: example_graph)
  with h reserved_id_holds_funding_source[OF h, of parseFloat noProfiles] show ?thesis by simp
qed

theorem reserved_id_collision_counterexample:
  "id' grantReservedId = FUNDING_SOURCE_ID \<and>
   map_get FUNDING_SOURCE_ID (buildNodesMap parseFloat noProfiles [grantReservedId]) =
     Some (grantNode grantReservedId) \<and>
   name (grantNode grantReservedId) = ''Grant 1'' \<and>
   originalData (grantNode grantReservedId) = Some grantReservedId \<and>
   map name (nodes (buildGraph parseFloat [grantReservedId] noProfiles)) = [''Grant 1'', ''0xabc'']"
proof -
  have "id' grantReservedId = FUNDING_SOURCE_ID"
    by (simp add: grantReservedId_def FUNDING_SOURCE_ID_def)
  moreover have "name (recipientNode noProfiles grantReservedId) = ''0xabc''"
    by (simp add: recipientNode_def lookupProfile_def Let_def toLowerCase_0xabc noProfiles_def
        grantReservedId_def exampleGrant_def)
  ultimately show ?thesis
    by (simp add: reserved_nodesMap reserved_graph reserved_grantNode map_get_def)
qed




text \<open>
  C5. Take a grant of the input whose outgoing rate parses to exactly zero, whose recipient
  is not empty, whose incoming rate parses to a positive number, and whose recipient id is
  not the id of a grant. It adds exactly two links to the link list of the builder: the
  inbound link, whose target is the grant node stored under the grant's id, and the link
  from the grant to the recipient node of its address, both with the incoming rate as
  their value. The link list before the filter is the inbound links of the items followed
  by their recipient links.
\<close>

theorem terminal_grant_contributes_two_links:
  assumes "g \<in> set items"
    and "strict_eq_zero (pf (monthlyOutgoingFlowRate g))"
    and "recipient g \<noteq> []"
    and "gt_zero (pf (monthlyIncomingFlowRate g))"
    and "RECIPIENT_PREFIX @ recipient g \<notin> id' ` set items"
  shows "contributedLinks pf (buildNodesMap pf ps items) g =
           [\<lparr> source = actualSourceId (buildNodesMap pf ps items) g, target = id' g,
              linkValue = pf (monthlyIncomingFlowRate g) \<rparr>,
            \<lparr> source = id' g, target = RECIPIENT_PREFIX @ recipient g,
              linkValue = pf (monthlyIncomingFlowRate g) \<rparr>] \<and>
         snd (preFilter pf items ps) =
           concat (map (\<lambda>h. addInboundLink pf (buildNodesMap pf ps items) h []) items) @
           concat (map (\<lambda>h. addRecipientLink pf (buildNodesMap pf ps items) h []) items) \<and>
         map_get (id' g) (buildNodesMap pf ps items) =
           Some (grantNode (last (filter (\<lambda>y. id' y = id' g) items))) \<and>
         map_get (RECIPIENT_PREFIX @ recipient g) (buildNodesMap pf ps items) =
           Some (recipientNode ps g) \<and>
         isRecipient (recipientNode ps g) = Some True"
proof -
  let ?NM = "buildNodesMap pf ps items"
  from assms(2,3) have t: "isTerminal pf g" by (simp add: isTerminal_def)
  have hg: "map_has (id' g) ?NM" using assms(1) by (rule has_id_buildNodesMap)
  have hr: "map_has (RECIPIENT_PREFIX @ recipient g) ?NM"
    using assms(1) t by (rule has_recipient_buildNodesMap)
  have i: "addInboundLink pf ?NM g [] =
          [\<lparr> source = actualSourceId ?NM g, target = id' g,
             linkValue = pf (monthlyIncomingFlowRate g) \<rparr>]"
    using addInboundLink_positive[of pf g ?NM "[]"] assms(4) hg by simp
  have r: "addRecipientLink pf ?NM g [] =
          [\<lparr> source = id' g, target = RECIPIENT_PREFIX @ recipient g,
             linkValue = pf (monthlyIncomingFlowRate g) \<rparr>]"
    using addRecipientLink_terminal_positive[of pf g ?NM "[]"] t assms(4) hr by simp
  have c: "contributedLinks pf ?NM g =
          [\<lparr> source = actualSourceId ?NM g, target = id' g,
             linkValue = pf (monthlyIncomingFlowRate g) \<rparr>,
           \<lparr> source = id' g, target = RECIPIENT_PREFIX @ recipient g,
             linkValue = pf (monthlyIncomingFlowRate g) \<rparr>]"
    unfolding contributedLinks_def by (simp add: i r)
  have gn: "map_get (id' g) ?NM = Some (grantNode (last (filter (\<lambda>y. id' y = id' g) items)))"
    using assms(1) by (intro get_buildNodesMap_grant) simp
  have rn: "map_get (RECIPIENT_PREFIX @ recipient g) ?NM = Some (recipientNode ps g)"
    using assms(1) t assms(5) by (rule get_buildNodesMap_recipient_own)
  from c gn rn show ?thesis
    by (simp add: snd_preFilter buildLinks_concat isRecipient_recipientNode)
qed

theorem terminal_grant_contributes_two_links_witness:
  "exampleGrant \<in> set [exampleGrant] \<and>
   strict_eq_zero (parseFloat (monthlyOutgoingFlowRate exampleGrant)) \<and>
   recipient exampleGrant \<noteq> [] \<and>
   gt_zero (parseFloat (monthlyIncomingFlowRate exampleGrant)) \<and>
   RECIPIENT_PREFIX @ recipient exampleGrant \<notin> id' ` set [exampleGrant] \<and>
   contributedLinks parseFloat (buildNodesMap parseFloat noProfiles [exampleGrant]) exampleGrant =
     [\<lparr> source = FUNDING_SOURCE_ID, target = ''g1'', linkValue = Fin 100 \<rparr>,
      \<lparr> source = ''g1'', target = ''recipient_0xabc'', linkValue = Fin 100 \<rparr>] \<and>
   snd (preFilter parseFloat [exampleGrant] noProfiles) =
     [\<lparr> source = FUNDING_SOURCE_ID, target = ''g1'', linkValue = Fin 100 \<rparr>,
      \<lparr> source = ''g1'', target = ''recipient_0xabc'', linkValue = Fin 100 \<rparr>] \<and>
   map_get ''g1'' (buildNodesMap parseFloat noProfiles [exampleGrant]) =
     Some (grantNode exampleGrant) \<and>
   map_get ''recipient_0xabc'' (buildNodesMap parseFloat noProfiles [exampleGrant]) =
     Some (recipientNode noProfiles exampleGrant)"
proof -
  have h: "exampleGrant \<in> set [exampleGrant]"
    "strict_eq_zero (parseFloat (monthlyOutgoingFlowRate exampleGrant))"
    "recipient exampleGrant \<noteq> []"
    "gt_zero (parseFloat (monthlyIncomingFlowRate exampleGrant))"
    "RECIPIENT_PREFIX @ recipient exampleGrant \<notin> id' ` set [exampleGrant]"
    by (simp_all add: example_rates example_ids RECIPIENT_PREFIX_def)
  from terminal_grant_contributes_two_links[of exampleGrant "[exampleGrant]" parseFloat noProfiles] h
  show ?thesis
    by (simp add: example_contributedLinks snd_preFilter example_links example_ids
        example_rates RECIPIENT_PREFIX_def)
qed

theorem terminal_grant_recipient_id_taken_counterexample:
  "exampleGrant \<in> set [grantRecipientId, exampleGrant, secondGrant] \<and>
   strict_eq_zero (parseFloat (monthlyOutgoingFlowRate exampleGrant)) \<and>
   recipient exampleGrant = ''0xabc'' \<and>
   gt_zero (parseFloat (monthlyIncomingFlowRate exampleGrant)) \<and>
   contributedLinks parseFloat
     (buildNodesMap parseFloat noProfiles [grantRecipientId, exampleGrant, secondGrant]) exampleGrant =
     [\<lparr> source = FUNDING_SOURCE_ID, target = ''g1'', linkValue = Fin 100 \<rparr>,
      \<lparr> source = ''g1'', target = ''recipient_0xabc'', linkValue = Fin 100 \<rparr>] \<and>
   map_get ''recipient_0xabc''
     (buildNodesMap parseFloat noProfiles [grantRecipientId, exampleGrant, secondGrant]) =
     Some (grantNode grantRecipientId) \<and>
   isRecipient (grantNode grantRecipientId) = None \<and>
   originalData (grantNode grantRecipientId) = Some grantRecipientId \<and>
   map isRecipient
     (map_values (buildNodesMap parseFloat noProfiles [grantRecipientId, exampleGrant, secondGrant])) =
     [None, None, None, None]"
proof -
  let ?NM = "buildNodesMap parseFloat noProfiles [grantRecipientId, exampleGrant, secondGrant]"
  have g: "map_get ''recipient_0xabc'' ?NM = Some (grantNode grantRecipientId)"
    by (simp add: recipientId_nodesMap map_get_def FUNDING_SOURCE_ID_def)
  have r: "map isRecipient (map_values ?NM) = [None, None, None, None]"
    by (simp add: recipientId_nodesMap map_values_def isRecipient_grantNode
        isRecipient_fundingSourceNode)
  show ?thesis
    by (intro conjI;
        (rule recipientId_contributedLinks g r
          | simp add: example_rates isRecipient_grantNode originalData_grantNode))
qed




text \<open>
  C7. The single grant \<open>g1\<close> of the specification's example (no upstream flow, recipient
  \<open>0xabc\<close>, incoming rate \<open>100\<close>, outgoing rate \<open>0\<close>) with no profiles gives the three
  nodes Funding Source, \<open>g1\<close> and \<open>recipient_0xabc\<close>, and the two links from the Funding
  Source to \<open>g1\<close> and from \<open>g1\<close> to \<open>recipient_0xabc\<close>, both of value 100.
\<close>

theorem example_single_grant:
  "buildGraph parseFloat [exampleGrant] noProfiles =
     \<lparr> nodes =
         [\<lparr> nodeId = ''___funding_source___'', name = ''Funding Source'', title' = None,
            originalData = None, isRecipient = None, isFlow' = None, username' = None,
            profileUrl = None, flowUrl = None, itemUrl = None \<rparr>,
          \<lparr> nodeId = ''g1'', name = ''Grant 1'', title' = Some ''Grant 1'',
            originalData = Some exampleGrant, isRecipient = None, isFlow' = Some False,
            username' = None, profileUrl = None, flowUrl = None,
            itemUrl = Some ''https://flows.wtf/item/g1'' \<rparr>,
          \<lparr> nodeId = ''recipient_0xabc'', name = ''0xabc'', title' = Some ''Recipient: 0xabc'',
            originalData = None, isRecipient = Some True, isFlow' = None, username' = None,
            profileUrl = None, flowUrl = None, itemUrl = None \<rparr>],
       links =
         [\<lparr> source = ''___funding_source___'', target = ''g1'', linkValue = Fin 100 \<rparr>,
          \<lparr> source = ''g1'', target = ''recipient_0xabc'', linkValue = Fin 100 \<rparr>] \<rparr>"
  by (simp add: example_graph example_nodes_explicit FUNDING_SOURCE_ID_def)

text \<open>
  C8. The same grant with incoming rate \<open>0\<close> gives the empty graph. No link is built, so
  the Funding Source is deleted and \<open>g1\<close> has no link; the recipient node has been
  created and is still in the node map when the connectivity filter starts, which drops it.
\<close>

theorem example_zero_incoming:
  "buildGraph parseFloat [grantZeroIncoming] noProfiles = \<lparr> nodes = [], links = [] \<rparr> \<and>
   snd (preFilter parseFloat [grantZeroIncoming] noProfiles) = [] \<and>
   fst (preFilter parseFloat [grantZeroIncoming] noProfiles) =
     [(''g1'', grantNode grantZeroIncoming),
      (''recipient_0xabc'', recipientNode noProfiles grantZeroIncoming)] \<and>
   isRecipient (recipientNode noProfiles grantZeroIncoming) = Some True"
  by (simp add: zero_graph zero_preFilter isRecipient_recipientNode)

text \<open>
  C9. On a node map with distinct keys, the connectivity filter keeps exactly the entries
  whose key some link of its input names as source or target, and then keeps exactly the
  links whose two ends are keys of the kept entries. When both ends of every link are keys
  of the node map, it keeps every link, so every node it keeps has a link in its output,
  and applying it to its own output changes nothing. The builder reaches the filter in
  such a state whenever no grant carries the reserved id.
\<close>

theorem connectivityFilter_idempotent:
  "(distinct (map fst m) \<longrightarrow>
      fst (connectivityFilter (m, ls)) =
        filter (\<lambda>(k, node). \<exists>l\<in>set ls. source l = k \<or> target l = k) m \<and>
      snd (connectivityFilter (m, ls)) =
        filter (\<lambda>l. map_has (source l) (fst (connectivityFilter (m, ls))) \<and>
                     map_has (target l) (fst (connectivityFilter (m, ls)))) ls \<and>
      (\<forall>k. map_has k (fst (connectivityFilter (m, ls))) \<longleftrightarrow>
            map_has k m \<and> (\<exists>l\<in>set ls. source l = k \<or> target l = k))) \<and>
   (distinct (map fst m) \<and> (\<forall>l\<in>set ls. map_has (source l) m \<and> map_has (target l) m) \<longrightarrow>
      snd (connectivityFilter (m, ls)) = ls \<and>
      connectivityFilter (connectivityFilter (m, ls)) = connectivityFilter (m, ls)) \<and>
   (FUNDING_SOURCE_ID \<notin> id' ` set items \<longrightarrow>
      connectivityFilter (connectivityFilter (preFilter pf items ps)) =
        connectivityFilter (preFilter pf items ps))"
proof -
  have a: "fst (connectivityFilter (m, ls)) =
        filter (\<lambda>(k, node). \<exists>l\<in>set ls. source l = k \<or> target l = k) m \<and>
      snd (connectivityFilter (m, ls)) =
        filter (\<lambda>l. map_has (source l) (fst (connectivityFilter (m, ls))) \<and>
                     map_has (target l) (fst (connectivityFilter (m, ls)))) ls \<and>
      (\<forall>k. map_has k (fst (connectivityFilter (m, ls))) \<longleftrightarrow>
            map_has k m \<and> (\<exists>l\<in>set ls. source l = k \<or> target l = k))"
    if d: "distinct (map fst m)"
    using fst_connectivityFilter[OF d, of ls] snd_connectivityFilter[of m ls]
      has_connectivityFilter[OF d, of _ ls]
    by blast
  have b: "snd (connectivityFilter (m, ls)) = ls \<and>
      connectivityFilter (connectivityFilter (m, ls)) = connectivityFilter (m, ls)"
    if "distinct (map fst m)" "\<forall>l\<in>set ls. map_has (source l) m \<and> map_has (target l) m"
    using connectivityFilter_closed[OF that] connectivityFilter_twice[OF that] by simp
  have c: "connectivityFilter (connectivityFilter (preFilter pf items ps)) =
        connectivityFilter (preFilter pf items ps)"
    if nc: "FUNDING_SOURCE_ID \<notin> id' ` set items"
  proof -
    have d: "distinct (map fst (fst (preFilter pf items ps)))"
      using keyedById_preFilter[of pf items ps] by (simp add: keyedById_def)
    have e: "\<forall>l\<in>set (snd (preFilter pf items ps)).
        map_has (source l) (fst (preFilter pf items ps)) \<and>
        map_has (target l) (fst (preFilter pf items ps))"
      using preFilter_endpoints[OF nc] by blast
    from connectivityFilter_twice[OF d e] show ?thesis by simp
  qed
  from a b c show ?thesis by blast
qed

theorem connectivityFilter_idempotent_witness:
  "FUNDING_SOURCE_ID \<notin> id' ` set [exampleGrant] \<and>
   distinct (map fst (fst (preFilter parseFloat [exampleGrant] noProfiles))) \<and>
   list_all (\<lambda>l. map_has (source l) (fst (preFilter parseFloat [exampleGrant] noProfiles)) \<and>
                  map_has (target l) (fst (preFilter parseFloat [exampleGrant] noProfiles)))
     (snd (preFilter parseFloat [exampleGrant] noProfiles)) \<and>
   snd (connectivityFilter (preFilter parseFloat [exampleGrant] noProfiles)) =
     snd (preFilter parseFloat [exampleGrant] noProfiles) \<and>
   connectivityFilter (connectivityFilter (preFilter parseFloat [exampleGrant] noProfiles)) =
     connectivityFilter (preFilter parseFloat [exampleGrant] noProfiles) \<and>
   fst (connectivityFilter (preFilter parseFloat [exampleGrant] noProfiles)) =
     fst (preFilter parseFloat [exampleGrant] noProfiles)"
proof -
  let ?P = "preFilter parseFloat [exampleGrant] noProfiles"
  have h: "FUNDING_SOURCE_ID \<notin> id' ` set [exampleGrant]"
    by (simp add: example_ids FUNDING_SOURCE_ID_def)
  have d: "distinct (map fst (fst ?P))"
    by (simp add: example_preFilter FUNDING_SOURCE_ID_def)
  have e: "list_all (\<lambda>l. map_has (source l) (fst ?P) \<and> map_has (target l) (fst ?P)) (snd ?P)"
    by (simp add: example_preFilter map_has_def)
  then have e': "\<forall>l\<in>set (snd ?P). map_has (source l) (fst ?P) \<and> map_has (target l) (fst ?P)"
    by (simp add: list_all_iff)
  have f: "filter (\<lambda>(k, node). \<exists>l\<in>set (snd ?P). source l = k \<or> target l = k) (fst ?P) = fst ?P"
    by (simp add: example_preFilter FUNDING_SOURCE_ID_def)
  from connectivityFilter_idempotent[of "fst ?P" "snd ?P" "[exampleGrant]" parseFloat noProfiles]
    h d e e' f
  show ?thesis by simp
qed

theorem connectivityFilter_collision_counterexample:
  "preFilter parseFloat [flowA, grantReservedIdFromA] noProfiles =
     ([(''a'', grantNode flowA)],
      [\<lparr> source = ''a'', target = FUNDING_SOURCE_ID, linkValue = Fin 100 \<rparr>]) \<and>
   connectivityFilter (preFilter parseFloat [flowA, grantReservedIdFromA] noProfiles) =
     ([(''a'', grantNode flowA)], []) \<and>
   connectivityFilter (connectivityFilter (preFilter parseFloat [flowA, grantReservedIdFromA] noProfiles)) =
     ([], [])"
  by (simp add: collision_preFilter collision_filter collision_filter_again)

text \<open>
  C10. For a terminal grant of the input whose recipient id is not the id of a grant, the
  node map holds exactly one entry under the recipient id, and it is the recipient node
  (name, title, username and profile URL) resolved for the first terminal grant of the
  input with that address. A later grant never overwrites it: the recipient pass leaves
  the node map as it is when the key is present. Grant nodes are overwritten: the node
  under a grant id is the node of the last item of the input with that id.
\<close>

theorem recipient_first_grant_last:
  "(g \<in> set items \<and> isTerminal pf g \<and> RECIPIENT_PREFIX @ recipient g \<notin> id' ` set items \<longrightarrow>
      map_get (RECIPIENT_PREFIX @ recipient g) (buildNodesMap pf ps items) =
        Some (recipientNode ps
               (hd (filter (\<lambda>h. isTerminal pf h \<and> recipient h = recipient g) items))) \<and>
      length (filter (\<lambda>(k, n). k = RECIPIENT_PREFIX @ recipient g)
                (buildNodesMap pf ps items)) = 1) \<and>
   (map_has (RECIPIENT_PREFIX @ recipient h) m \<longrightarrow> addRecipientNode pf ps h m = m) \<and>
   (x \<in> set items \<longrightarrow>
      map_get (id' x) (buildNodesMap pf ps items) =
        Some (grantNode (last (filter (\<lambda>y. id' y = id' x) items))))"
proof -
  let ?NM = "buildNodesMap pf ps items"
  have a: "map_get (RECIPIENT_PREFIX @ recipient g) ?NM =
        Some (recipientNode ps
               (hd (filter (\<lambda>h. isTerminal pf h \<and> recipient h = recipient g) items))) \<and>
      length (filter (\<lambda>(k, n). k = RECIPIENT_PREFIX @ recipient g) ?NM) = 1"
    if g: "g \<in> set items" "isTerminal pf g" "RECIPIENT_PREFIX @ recipient g \<notin> id' ` set items"
  proof -
    from g(1,2) have ne: "filter (\<lambda>h. isTerminal pf h \<and> recipient h = recipient g) items \<noteq> []"
      by (auto simp: filter_empty_conv)
    have d: "distinct (map fst ?NM)"
      using keyedById_buildNodesMap[of pf ps items] by (simp add: keyedById_def)
    have h: "map_has (RECIPIENT_PREFIX @ recipient g) ?NM"
      using g(1,2) by (rule has_recipient_buildNodesMap)
    from get_buildNodesMap_recipient[OF g(3) ne, of ps] length_filter_key[OF d h]
    show ?thesis by simp
  qed
  have b: "addRecipientNode pf ps h m = m" if "map_has (RECIPIENT_PREFIX @ recipient h) m"
    using that by (rule addRecipientNode_present)
  have c: "map_get (id' x) ?NM = Some (grantNode (last (filter (\<lambda>y. id' y = id' x) items)))"
    if "x \<in> set items"
    using that by (intro get_buildNodesMap_grant) simp
  from a b c show ?thesis by blast
qed

theorem recipient_first_grant_last_witness:
  "secondGrant \<in> set [exampleGrant, secondGrant, repeatedGrant] \<and>
   isTerminal parseFloat secondGrant \<and>
   map_get ''recipient_0xabc''
     (buildNodesMap parseFloat aliceProfiles [exampleGrant, secondGrant, repeatedGrant]) =
     Some (recipientNode aliceProfiles exampleGrant) \<and>
   name (recipientNode aliceProfiles exampleGrant) = ''Alice (alice)'' \<and>
   map_has ''recipient_0xabc'' (buildNodesMap parseFloat aliceProfiles [exampleGrant]) \<and>
   addRecipientNode parseFloat aliceProfiles secondGrant
     (buildNodesMap parseFloat aliceProfiles [exampleGrant]) =
     buildNodesMap parseFloat aliceProfiles [exampleGrant] \<and>
   map_get ''g1''
     (buildNodesMap parseFloat aliceProfiles [exampleGrant, secondGrant, repeatedGrant]) =
     Some (grantNode repeatedGrant)"
proof -
  let ?items = "[exampleGrant, secondGrant, repeatedGrant]"
  let ?m = "buildNodesMap parseFloat aliceProfiles [exampleGrant]"
  have h: "secondGrant \<in> set ?items" "isTerminal parseFloat secondGrant"
    "RECIPIENT_PREFIX @ recipient secondGrant \<notin> id' ` set ?items"
    "exampleGrant \<in> set ?items"
    by (simp_all add: repeated_facts example_ids RECIPIENT_PREFIX_def)
  have f: "hd (filter (\<lambda>h. isTerminal parseFloat h \<and> recipient h = recipient secondGrant) ?items) =
           exampleGrant"
    by (simp add: repeated_facts example_rates)
  have l: "last (filter (\<lambda>y. id' y = id' exampleGrant) ?items) = repeatedGrant"
    by (simp add: repeated_facts example_ids)
  have p: "map_has (RECIPIENT_PREFIX @ recipient secondGrant) ?m"
    by (simp add: has_buildNodesMap repeated_facts example_rates)
  from recipient_first_grant_last[of secondGrant ?items parseFloat aliceProfiles secondGrant ?m exampleGrant]
    h f l p
  show ?thesis by (simp add: repeated_facts example_ids RECIPIENT_PREFIX_def alice_recipientNode)
qed

theorem recipient_id_taken_counterexample:
  "isTerminal parseFloat exampleGrant \<and> isTerminal parseFloat secondGrant \<and>
   recipient exampleGrant = ''0xabc'' \<and> recipient secondGrant = ''0xabc'' \<and>
   id' grantRecipientId = ''recipient_0xabc'' \<and>
   map_get ''recipient_0xabc''
     (buildNodesMap parseFloat noProfiles [grantRecipientId, exampleGrant, secondGrant]) =
     Some (grantNode grantRecipientId) \<and>
   name (grantNode grantRecipientId) = ''X'' \<and>
   map isRecipient
     (map_values (buildNodesMap parseFloat noProfiles [grantRecipientId, exampleGrant, secondGrant])) =
     [None, None, None, None] \<and>
   recipientNodes (buildGraph parseFloat [grantRecipientId, exampleGrant, secondGrant] noProfiles) = []"
  by (simp add: repeated_facts example_rates recipientId_grantNode recipientId_nodesMap
      recipientId_graph map_get_def map_values_def recipientNodes_def isRecipient_grantNode
      isRecipient_fundingSourceNode FUNDING_SOURCE_ID_def)


end
